theory Spec2Isabelle
  imports Complex_Main "HOL-Library.AList"
begin

section \<open>Values\<close>

text \<open>
  Python values that reach a manifest are JSON values. A \<open>dict\<close> is an association list
  in insertion order with distinct keys; a float is the rational it denotes (NaN and the
  infinities are not represented); a \<open>str\<close> and a \<open>bytes\<close> object are both lists of
  characters.
\<close>

datatype json =
    JNull
  | JBool bool
  | JInt int
  | JFloat rat
  | JStr string
  | JList "json list"
  | JObj "(string \<times> json) list"

type_synonym pydict = "(string \<times> json) list"

text \<open>\<open>d[k] = v\<close>: an existing key keeps its place, a new key goes to the end.\<close>

definition dict_set :: "string \<Rightarrow> json \<Rightarrow> pydict \<Rightarrow> pydict" where
  "dict_set k v d = AList.update k v d"

text \<open>A dict display \<open>{k1: v1, ..., **fields}\<close>: the entries are stored from left to right.\<close>

definition dict_lit :: "(string \<times> json) list \<Rightarrow> pydict" where
  "dict_lit kvs = fold (\<lambda>kv d. dict_set (fst kv) (snd kv) d) kvs []"

text \<open>\<open>d.get(k)\<close>: \<open>None\<close> for a missing key, which is also what a JSON \<open>null\<close> loads as.\<close>

definition dict_get :: "pydict \<Rightarrow> string \<Rightarrow> json" where
  "dict_get d k = (case map_of d k of None \<Rightarrow> JNull | Some v \<Rightarrow> v)"

text \<open>
  The exceptions of the model. \<open>TargetError\<close> is any other \<open>Exception\<close> raised by the
  target, given by its \<open>repr\<close>; \<open>TargetExit\<close> is a \<open>BaseException\<close> that is not an
  \<open>Exception\<close> (\<open>SystemExit\<close>, \<open>KeyboardInterrupt\<close>), given by its \<open>repr\<close>.
\<close>

datatype error =
    PermissionError string
  | RecursionError
  | KeyError string
  | TypeError string
  | TargetError string
  | TargetExit string

fun is_Exception :: "error \<Rightarrow> bool" where
  "is_Exception (TargetExit r) = False"
| "is_Exception e = True"

definition quoted :: "string \<Rightarrow> string" where
  "quoted s = [char_of (39::nat)] @ s @ [char_of (39::nat)]"

fun repr :: "error \<Rightarrow> string" where
  "repr (PermissionError m) = ''PermissionError('' @ quoted m @ '')''"
| "repr RecursionError = ''RecursionError('' @ quoted ''maximum recursion depth exceeded'' @ '')''"
| "repr (KeyError k) = ''KeyError('' @ quoted k @ '')''"
| "repr (TypeError m) = ''TypeError('' @ quoted m @ '')''"
| "repr (TargetError r) = r"
| "repr (TargetExit r) = r"

section \<open>Library primitives\<close>

text \<open>
  The functions of the Python library that the program calls and that are not part of it:
  \<open>hashlib.sha256(b).hexdigest()\<close>, \<open>json.dumps(d, sort_keys=True, separators=(",", ":"))\<close>,
  \<open>str.encode()\<close> and \<open>os.path.abspath\<close>. Every theorem holds for any choice of them.
\<close>

record lib =
  sha256_hex :: "string \<Rightarrow> string"
  json_dumps :: "json \<Rightarrow> string"
  str_encode :: "string \<Rightarrow> string"
  os_abspath :: "string \<Rightarrow> string"

text \<open>
  \<open>round(rel, 6)\<close>: the nearest multiple of \<open>10^-6\<close>, a tie going to the even one. The
  rounding of the result to a double is not modelled.
\<close>

definition round_half_even :: "rat \<Rightarrow> int" where
  "round_half_even x =
     (let f = \<lfloor>x\<rfloor>; d = x - of_int f
      in if d < 1 / 2 then f else if 1 / 2 < d then f + 1 else if even f then f else f + 1)"

definition round6 :: "rat \<Rightarrow> rat" where
  "round6 x = of_int (round_half_even (x * 1000000)) / 1000000"

section \<open>Event logger with merkle chain\<close>

record EventLogger =
  start_wall :: string
  start_mono :: rat
  events :: "pydict list"
  prev_hash :: string
  seed :: int
  allow_net :: bool
  env :: pydict

text \<open>
  \<open>EventLogger.__init__\<close>. The arguments before \<open>seed\<close> are what the constructor reads from
  the process: \<open>datetime.utcnow().isoformat()\<close>, \<open>time.monotonic()\<close>, \<open>sys.version\<close>,
  \<open>sys.platform\<close> and \<open>os.getcwd()\<close>.
\<close>

definition EventLogger_init ::
  "string \<Rightarrow> rat \<Rightarrow> string \<Rightarrow> string \<Rightarrow> string \<Rightarrow> int \<Rightarrow> bool \<Rightarrow> EventLogger" where
  "EventLogger_init utcnow t0 version platform cwd sd an =
     \<lparr> start_wall = utcnow @ ''Z'',
       start_mono = t0,
       events = [],
       prev_hash = replicate 64 (CHR ''0''),
       seed = sd,
       allow_net = an,
       env = dict_lit [(''python_version'', JStr version), (''platform'', JStr platform),
                       (''cwd'', JStr cwd)] \<rparr>"

definition hash_dict :: "lib \<Rightarrow> pydict \<Rightarrow> string" where
  "hash_dict L d = sha256_hex L (json_dumps L (JObj d))"

definition chain :: "lib \<Rightarrow> pydict \<Rightarrow> EventLogger \<Rightarrow> string \<times> EventLogger" where
  "chain L event lg =
     (let h_event = hash_dict L event;
          combined = prev_hash lg @ h_event;
          h_chain = sha256_hex L combined
      in (h_chain, lg\<lparr>prev_hash := h_chain\<rparr>))"

text \<open>
  \<open>EventLogger.log\<close>; \<open>now\<close> is what \<open>time.monotonic()\<close> returns in this call. The event
  before the chain field is embedded is \<open>new_event\<close>.
\<close>

definition new_event :: "rat \<Rightarrow> string \<Rightarrow> (string \<times> json) list \<Rightarrow> pydict" where
  "new_event rel kind flds =
     dict_lit ([(''t'', JFloat (round6 rel)), (''kind'', JStr kind)] @ flds)"

definition log_event ::
  "lib \<Rightarrow> rat \<Rightarrow> string \<Rightarrow> (string \<times> json) list \<Rightarrow> EventLogger \<Rightarrow> EventLogger" where
  "log_event L now kind flds lg =
     (let rel = now - start_mono lg;
          event = new_event rel kind flds;
          (h, lg1) = chain L event lg;
          event' = dict_set ''chain'' (JStr h) event
      in lg1\<lparr>events := events lg1 @ [event']\<rparr>)"

record Manifest =
  m_started_at_utc :: string
  m_seed :: int
  m_allow_net :: bool
  m_env :: pydict
  m_events :: "pydict list"
  m_root_hash :: string

text \<open>\<open>EventLogger.manifest\<close>: it reads the logger and leaves it as it is.\<close>

definition manifest :: "lib \<Rightarrow> EventLogger \<Rightarrow> Manifest" where
  "manifest L lg =
     \<lparr> m_started_at_utc = start_wall lg,
       m_seed = seed lg,
       m_allow_net = allow_net lg,
       m_env = env lg,
       m_events = events lg,
       m_root_hash = hash_dict L [(''events'', JList (map JObj (events lg)))] \<rparr>"

text \<open>A series of \<open>log\<close> calls, each with its clock reading, kind and fields.\<close>

definition log_all ::
  "lib \<Rightarrow> (rat \<times> string \<times> (string \<times> json) list) list \<Rightarrow> EventLogger \<Rightarrow> EventLogger" where
  "log_all L cs lg = fold (\<lambda>c. log_event L (fst c) (fst (snd c)) (snd (snd c))) cs lg"

text \<open>The chain hash stored with an event.\<close>

definition chain_of :: "pydict \<Rightarrow> string" where
  "chain_of e = (case dict_get e ''chain'' of JStr h \<Rightarrow> h | _ \<Rightarrow> [])"

section \<open>Wrappers for io, net and subprocess\<close>

subsection \<open>IOShim\<close>

text \<open>
  The fields of an \<open>IOShim\<close>. The hasher is the bytes it has been fed: its \<open>hexdigest\<close>
  is the digest of their concatenation. The wrapped file \<open>_f\<close> is outside the program:
  each call below takes what the wrapped file answers (\<open>Inl\<close> when it raises). The
  logger is shared with the run and is passed where it is used.
\<close>

record IOShim =
  shim_path :: string
  shim_mode :: string
  shim_written :: nat
  shim_hasher :: string

datatype payload = PStr string | PBytes string

definition IOShim_write ::
  "lib \<Rightarrow> payload \<Rightarrow> error + nat \<Rightarrow> IOShim \<Rightarrow> (error + nat) \<times> IOShim" where
  "IOShim_write L b ans sh =
     (let b' = (case b of PStr s \<Rightarrow> str_encode L s | PBytes x \<Rightarrow> x)
      in (ans, sh\<lparr>shim_written := shim_written sh + length b',
                   shim_hasher := shim_hasher sh @ b'\<rparr>))"

text \<open>\<open>writelines\<close>: the loop stops at the first \<open>write\<close> that raises.\<close>

fun writelines_loop ::
  "lib \<Rightarrow> nat \<Rightarrow> (payload \<times> (error + nat)) list \<Rightarrow> IOShim \<Rightarrow> (error + nat) \<times> IOShim" where
  "writelines_loop L tot [] sh = (Inr tot, sh)"
| "writelines_loop L tot (line # lns) sh =
     (case IOShim_write L (fst line) (snd line) sh of
        (Inl e, sh') \<Rightarrow> (Inl e, sh')
      | (Inr n, sh') \<Rightarrow> writelines_loop L (tot + n) lns sh')"

definition IOShim_writelines ::
  "lib \<Rightarrow> (payload \<times> (error + nat)) list \<Rightarrow> IOShim \<Rightarrow> (error + nat) \<times> IOShim" where
  "IOShim_writelines L lns sh = writelines_loop L 0 lns sh"

definition write_mode :: "string \<Rightarrow> bool" where
  "write_mode mode \<longleftrightarrow> CHR ''w'' \<in> set mode \<or> CHR ''a'' \<in> set mode \<or> CHR ''x'' \<in> set mode"

text \<open>\<open>close\<close>: the \<open>finally\<close> block runs whether the wrapped file's \<open>close\<close> raises or not.\<close>

definition IOShim_close ::
  "lib \<Rightarrow> rat \<Rightarrow> error + unit \<Rightarrow> IOShim \<Rightarrow> EventLogger \<Rightarrow> (error + unit) \<times> EventLogger" where
  "IOShim_close L now ans sh lg =
     (ans,
      if write_mode (shim_mode sh) then
        log_event L now ''file_write_close''
          [(''path'', JStr (os_abspath L (shim_path sh))),
           (''bytes'', JInt (int (shim_written sh))),
           (''sha256'', JStr (sha256_hex L (shim_hasher sh)))] lg
      else lg)"

subsection \<open>open\<close>

text \<open>
  What \<open>builtins.open\<close> is bound to, and what an \<open>open\<close> call returns: the interpreter's
  own file object or an \<open>IOShim\<close> around it.
\<close>

datatype open_impl = OriginalOpen | OpenWrapper

datatype handle = RawFile | Wrapped IOShim

text \<open>
  What the file system answers about the path of one \<open>open\<close> call: \<open>os.path.exists\<close>, the
  bytes of the file, and the failure, if any, of the interpreter's own \<open>open\<close> in a
  given mode.
\<close>

record fileinfo =
  fi_exists :: bool
  fi_content :: string
  fi_open :: "string \<Rightarrow> error option"

text \<open>
  \<open>open_wrapper\<close> and \<open>hash_file\<close>. \<open>hash_file\<close> calls \<open>open\<close>, a name that it resolves
  through \<open>builtins\<close> when it runs, so it calls whatever \<open>builtins.open\<close> is bound to
  then (\<open>bo\<close>); with the wrapper installed that is \<open>open_wrapper\<close> again. The first
  argument is the number of stack frames left before the interpreter raises
  \<open>RecursionError\<close>. \<open>clock n\<close> is what \<open>time.monotonic()\<close> returns in the \<open>log\<close> call
  made when \<open>n\<close> events are in the log. The two read branches of the source, with and
  without \<open>b\<close> in the mode, do the same and are one branch here.
\<close>

definition log_at ::
  "lib \<Rightarrow> (nat \<Rightarrow> rat) \<Rightarrow> string \<Rightarrow> (string \<times> json) list \<Rightarrow> EventLogger \<Rightarrow> EventLogger" where
  "log_at L clock kind flds lg = log_event L (clock (length (events lg))) kind flds lg"

fun open_wrapper ::
  "nat \<Rightarrow> lib \<Rightarrow> (nat \<Rightarrow> rat) \<Rightarrow> open_impl \<Rightarrow> fileinfo \<Rightarrow> string \<Rightarrow> string \<Rightarrow> EventLogger
     \<Rightarrow> (error + handle) \<times> EventLogger"
and hash_file ::
  "nat \<Rightarrow> lib \<Rightarrow> (nat \<Rightarrow> rat) \<Rightarrow> open_impl \<Rightarrow> fileinfo \<Rightarrow> string \<Rightarrow> EventLogger
     \<Rightarrow> (error + nat \<times> string) \<times> EventLogger"
where
  "open_wrapper 0 L clock bo fi path mode lg = (Inl RecursionError, lg)"
| "open_wrapper (Suc d) L clock bo fi path mode lg =
     (let abspath = os_abspath L path
      in case
           (if CHR ''r'' \<in> set mode \<and> fi_exists fi then
              (case hash_file d L clock bo fi abspath lg of
                 (Inl e, lg1) \<Rightarrow> (Inl e, lg1)
               | (Inr (sz, sha), lg1) \<Rightarrow>
                   (Inr (), log_at L clock ''file_open_read''
                      [(''path'', JStr abspath), (''mode'', JStr mode),
                       (''bytes'', JInt (int sz)), (''sha256'', JStr sha)] lg1))
            else
              (Inr (), log_at L clock ''file_open''
                 [(''path'', JStr abspath), (''mode'', JStr mode)] lg))
         of
           (Inl e, lg2) \<Rightarrow> (Inl e, lg2)
         | (Inr u, lg2) \<Rightarrow>
             (case fi_open fi mode of
                Some e \<Rightarrow> (Inl e, lg2)
              | None \<Rightarrow>
                  (if write_mode mode then
                     (Inr (Wrapped \<lparr>shim_path = path, shim_mode = mode,
                                     shim_written = 0, shim_hasher = []\<rparr>), lg2)
                   else (Inr RawFile, lg2))))"
| "hash_file 0 L clock bo fi path lg = (Inl RecursionError, lg)"
| "hash_file (Suc d) L clock bo fi path lg =
     (case
        (case bo of
           OriginalOpen \<Rightarrow>
             (case fi_open fi ''rb'' of Some e \<Rightarrow> (Inl e, lg) | None \<Rightarrow> (Inr RawFile, lg))
         | OpenWrapper \<Rightarrow> open_wrapper d L clock bo fi path ''rb'' lg)
      of
        (Inl e, lg1) \<Rightarrow> (Inl e, lg1)
      | (Inr rf, lg1) \<Rightarrow>
          (Inr (length (fi_content fi), sha256_hex L (fi_content fi)), lg1))"

subsection \<open>socket\<close>

text \<open>The calls that reach the methods of the real \<open>socket.socket\<close>, in order.\<close>

datatype netop = RealConnect string int | RealSend string | RealRecv int

text \<open>
  The methods of \<open>SocketShim\<close>; \<open>an\<close> is the \<open>allow_net\<close> of \<open>patch_socket\<close>, the
  address is a host and a port, the data are bytes, and \<open>ans\<close> is what the method of
  the real socket answers when it is called.
\<close>

definition SocketShim_connect ::
  "lib \<Rightarrow> rat \<Rightarrow> bool \<Rightarrow> string \<times> int \<Rightarrow> error + unit \<Rightarrow> EventLogger \<times> netop list
     \<Rightarrow> (error + unit) \<times> EventLogger \<times> netop list" where
  "SocketShim_connect L now an address ans st =
     (let host = fst address; port = snd address; lg = fst st; net = snd st
      in if \<not> an then
           (Inl (PermissionError ''network disabled by merkle-run''),
            log_event L now ''net_block'' [(''host'', JStr host), (''port'', JInt port)] lg, net)
         else
           (ans,
            log_event L now ''net_connect'' [(''host'', JStr host), (''port'', JInt port)] lg,
            net @ [RealConnect host port]))"

definition SocketShim_send ::
  "lib \<Rightarrow> rat \<Rightarrow> bool \<Rightarrow> string \<Rightarrow> error + nat \<Rightarrow> EventLogger \<times> netop list
     \<Rightarrow> (error + nat) \<times> EventLogger \<times> netop list" where
  "SocketShim_send L now an data ans st =
     (let lg = fst st; net = snd st
      in if \<not> an then
           (Inl (PermissionError ''network disabled by merkle-run''),
            log_event L now ''net_block_send'' [(''bytes'', JInt (int (length data)))] lg, net)
         else
           (let sha = sha256_hex L data
            in (ans,
                log_event L now ''net_send''
                  [(''bytes'', JInt (int (length data))), (''sha256'', JStr sha)] lg,
                net @ [RealSend data])))"

definition SocketShim_recv ::
  "lib \<Rightarrow> rat \<Rightarrow> bool \<Rightarrow> int \<Rightarrow> error + string \<Rightarrow> EventLogger \<times> netop list
     \<Rightarrow> (error + string) \<times> EventLogger \<times> netop list" where
  "SocketShim_recv L now an bufsize ans st =
     (let lg = fst st; net = snd st
      in if \<not> an then
           (Inl (PermissionError ''network disabled by merkle-run''),
            log_event L now ''net_block_recv'' [(''req'', JInt bufsize)] lg, net)
         else
           (case ans of
              Inl e \<Rightarrow> (Inl e, lg, net @ [RealRecv bufsize])
            | Inr data \<Rightarrow>
                (let sha = sha256_hex L data
                 in (Inr data,
                     log_event L now ''net_recv''
                       [(''bytes'', JInt (int (length data))), (''sha256'', JStr sha)] lg,
                     net @ [RealRecv bufsize]))))"

subsection \<open>subprocess\<close>

text \<open>\<open>sep.join(xs)\<close> on a list of strings.\<close>

fun join :: "string \<Rightarrow> string list \<Rightarrow> string" where
  "join sep [] = []"
| "join sep [x] = x"
| "join sep (x # y # ys) = x @ sep @ join sep (y # ys)"

text \<open>
  The \<open>args\<close> of \<open>Popen\<close>: a list, each element given by its \<open>str\<close>, or any other value,
  given by its \<open>str\<close>.
\<close>

datatype popen_args = ArgList "string list" | ArgOther string

definition PopenShim_init ::
  "lib \<Rightarrow> rat \<Rightarrow> popen_args \<Rightarrow> error + unit \<Rightarrow> EventLogger \<Rightarrow> (error + unit) \<times> EventLogger" where
  "PopenShim_init L now args ans lg =
     (let cmd = (case args of ArgList xs \<Rightarrow> xs | ArgOther s \<Rightarrow> [s])
      in (ans, log_event L now ''subprocess_spawn'' [(''cmd'', JStr (join '' '' cmd))] lg))"

section \<open>Process state and the target script\<close>

text \<open>
  The process-wide bindings that a run replaces and restores: \<open>builtins.open\<close>,
  \<open>socket.socket\<close>, \<open>subprocess.Popen\<close> and \<open>sys.argv\<close>.
\<close>

datatype socket_impl = OriginalSocket | SocketShim

datatype popen_impl = OriginalPopen | PopenShim

record globals =
  builtins_open :: open_impl
  socket_socket :: socket_impl
  subprocess_Popen :: popen_impl
  sys_argv :: "string list"

definition patch_open :: "globals \<Rightarrow> globals \<times> open_impl" where
  "patch_open g = (let original_open = builtins_open g
                   in (g\<lparr>builtins_open := OpenWrapper\<rparr>, original_open))"

definition patch_socket :: "globals \<Rightarrow> globals \<times> socket_impl" where
  "patch_socket g = (let original_socket = socket_socket g
                     in (g\<lparr>socket_socket := SocketShim\<rparr>, original_socket))"

definition patch_subprocess :: "globals \<Rightarrow> globals \<times> popen_impl" where
  "patch_subprocess g = (let original_popen = subprocess_Popen g
                         in (g\<lparr>subprocess_Popen := PopenShim\<rparr>, original_popen))"

text \<open>
  What a run reads from the process and the host: the wall clock and the monotonic
  clock at the start, the monotonic clock in each \<open>log\<close> call (\<open>w_clock W n\<close> when \<open>n\<close>
  events are in the log), \<open>sys.version\<close>, \<open>sys.platform\<close>, \<open>os.getcwd()\<close>, whether numpy
  can be imported and seeded, and the stack frames left to the wrappers.
\<close>

record world =
  w_utcnow :: string
  w_monotonic :: rat
  w_clock :: "nat \<Rightarrow> rat"
  w_version :: string
  w_platform :: string
  w_cwd :: string
  w_numpy :: bool
  w_frames :: nat

text \<open>
  \<open>seed_all\<close>. The state of the generators is not part of the model; the calls that
  importing numpy makes through the wrappers are not modelled.
\<close>

definition seed_all :: "lib \<Rightarrow> world \<Rightarrow> int \<Rightarrow> EventLogger \<Rightarrow> EventLogger" where
  "seed_all L W sd lg =
     (let lg1 = log_at L (w_clock W) ''rng_seed'' [(''lib'', JStr ''random''), (''seed'', JInt sd)] lg
      in if w_numpy W then
           log_at L (w_clock W) ''rng_seed'' [(''lib'', JStr ''numpy''), (''seed'', JInt sd)] lg1
         else
           log_at L (w_clock W) ''rng_seed_skip'' [(''lib'', JStr ''numpy'')] lg1)"

text \<open>
  One execution of the target is the list of calls that it makes on the installed
  wrappers, in order, each with what the real primitive underneath answers, and the way
  it ends: \<open>None\<close> when it returns, \<open>Some e\<close> when \<open>e\<close> propagates out of it. A file
  handle is the position of its \<open>IOShim\<close> among those the run has created. \<open>Rebind\<close> is
  the target assigning the process-wide bindings itself.
\<close>

datatype call =
    Open string string fileinfo
  | Write nat payload "error + nat"
  | Writelines nat "(payload \<times> (error + nat)) list"
  | Close nat "error + unit"
  | Connect string int "error + unit"
  | Send string "error + nat"
  | Recv int "error + string"
  | Popen popen_args "error + unit"
  | Rebind globals

record script =
  calls :: "call list"
  outcome :: "error option"

record rstate =
  r_logger :: EventLogger
  r_globals :: globals
  r_shims :: "IOShim list"
  r_net :: "netop list"

fun exec_call :: "lib \<Rightarrow> world \<Rightarrow> bool \<Rightarrow> call \<Rightarrow> rstate \<Rightarrow> rstate" where
  "exec_call L W an (Open path mode fi) s =
     (case open_wrapper (w_frames W) L (w_clock W) (builtins_open (r_globals s)) fi path mode
             (r_logger s) of
        (Inr (Wrapped sh), lg) \<Rightarrow> s\<lparr>r_logger := lg, r_shims := r_shims s @ [sh]\<rparr>
      | (Inr RawFile, lg) \<Rightarrow> s\<lparr>r_logger := lg\<rparr>
      | (Inl e, lg) \<Rightarrow> s\<lparr>r_logger := lg\<rparr>)"
| "exec_call L W an (Write h b ans) s =
     (if h < length (r_shims s) then
        s\<lparr>r_shims := (r_shims s)[h := snd (IOShim_write L b ans (r_shims s ! h))]\<rparr>
      else s)"
| "exec_call L W an (Writelines h lns) s =
     (if h < length (r_shims s) then
        s\<lparr>r_shims := (r_shims s)[h := snd (IOShim_writelines L lns (r_shims s ! h))]\<rparr>
      else s)"
| "exec_call L W an (Close h ans) s =
     (if h < length (r_shims s) then
        s\<lparr>r_logger := snd (IOShim_close L (w_clock W (length (events (r_logger s)))) ans
                              (r_shims s ! h) (r_logger s))\<rparr>
      else s)"
| "exec_call L W an (Connect host port ans) s =
     (let r = SocketShim_connect L (w_clock W (length (events (r_logger s)))) an (host, port) ans
                (r_logger s, r_net s)
      in s\<lparr>r_logger := fst (snd r), r_net := snd (snd r)\<rparr>)"
| "exec_call L W an (Send data ans) s =
     (let r = SocketShim_send L (w_clock W (length (events (r_logger s)))) an data ans
                (r_logger s, r_net s)
      in s\<lparr>r_logger := fst (snd r), r_net := snd (snd r)\<rparr>)"
| "exec_call L W an (Recv bufsize ans) s =
     (let r = SocketShim_recv L (w_clock W (length (events (r_logger s)))) an bufsize ans
                (r_logger s, r_net s)
      in s\<lparr>r_logger := fst (snd r), r_net := snd (snd r)\<rparr>)"
| "exec_call L W an (Popen args ans) s =
     s\<lparr>r_logger := snd (PopenShim_init L (w_clock W (length (events (r_logger s)))) args ans
                            (r_logger s))\<rparr>"
| "exec_call L W an (Rebind g) s = s\<lparr>r_globals := g\<rparr>"

section \<open>Core run\<close>

text \<open>\<open>str.split()\<close> with no argument: the words between runs of whitespace.\<close>

definition is_space :: "char \<Rightarrow> bool" where
  "is_space c \<longleftrightarrow>
     (let n = (of_char c :: nat) in (9 \<le> n \<and> n \<le> 13) \<or> (28 \<le> n \<and> n \<le> 32) \<or> n = 133 \<or> n = 160)"

fun split_words :: "string \<Rightarrow> string \<Rightarrow> string list" where
  "split_words cur [] = (if cur = [] then [] else [cur])"
| "split_words cur (c # cs) =
     (if is_space c then (if cur = [] then split_words [] cs else cur # split_words [] cs)
      else split_words (cur @ [c]) cs)"

definition split :: "string \<Rightarrow> string list" where
  "split s = split_words [] s"

text \<open>
  \<open>run_instrumented\<close>. \<open>prog argv\<close> is the execution of the target started with
  \<open>sys.argv = argv\<close>. The result is the manifest that the function returns or the
  exception that leaves it, together with the state at that moment: the logger (a
  local of the function) and the process-wide bindings.
\<close>

definition run_instrumented ::
  "lib \<Rightarrow> world \<Rightarrow> (string list \<Rightarrow> script) \<Rightarrow> string \<Rightarrow> string option \<Rightarrow> int \<Rightarrow> bool \<Rightarrow> globals
     \<Rightarrow> (error + Manifest) \<times> rstate" where
  "run_instrumented L W prog target args_line sd an g =
     (let logger = EventLogger_init (w_utcnow W) (w_monotonic W) (w_version W) (w_platform W)
                     (w_cwd W) sd an;
          (g1, undo_open) = patch_open g;
          (g2, undo_sock) = patch_socket g1;
          (g3, undo_popen) = patch_subprocess g2;
          logger1 = seed_all L W sd logger;
          old_argv = sys_argv g3;
          g4 = g3\<lparr>sys_argv := [target] @
                  (case args_line of None \<Rightarrow> [] | Some a \<Rightarrow> if a = [] then [] else split a)\<rparr>;
          restore = (\<lambda>s. s\<lparr>r_globals := (r_globals s)\<lparr>builtins_open := undo_open,
                                                        socket_socket := undo_sock,
                                                        subprocess_Popen := undo_popen,
                                                        sys_argv := old_argv\<rparr>\<rparr>);
          logger2 = log_at L (w_clock W) ''begin''
                      [(''target'', JStr (os_abspath L target)),
                       (''args'', JList (map JStr (tl (sys_argv g4))))] logger1;
          sc = prog (sys_argv g4);
          s = fold (exec_call L W an) (calls sc)
                \<lparr>r_logger = logger2, r_globals = g4, r_shims = [], r_net = []\<rparr>
      in case outcome sc of
           None \<Rightarrow>
             (let s1 = restore (s\<lparr>r_logger := log_at L (w_clock W) ''end''
                                     [(''status'', JStr ''ok'')] (r_logger s)\<rparr>)
              in (Inr (manifest L (r_logger s1)), s1))
         | Some e \<Rightarrow>
             (if is_Exception e then
                (Inl e, restore (s\<lparr>r_logger := log_at L (w_clock W) ''end''
                                     [(''status'', JStr ''exception''), (''error'', JStr (repr e))]
                                     (r_logger s)\<rparr>))
              else (Inl e, restore s)))"

section \<open>Verify\<close>

text \<open>
  Python's \<open>==\<close> on loaded JSON values: \<open>bool\<close>, \<open>int\<close> and \<open>float\<close> compare by their
  numeric value, lists element by element, dicts key by key.
\<close>

fun num_val :: "json \<Rightarrow> rat option" where
  "num_val (JBool b) = Some (if b then 1 else 0)"
| "num_val (JInt i) = Some (of_int i)"
| "num_val (JFloat r) = Some r"
| "num_val v = None"

primrec py_eq :: "json \<Rightarrow> json \<Rightarrow> bool" where
  "py_eq JNull b = (b = JNull)"
| "py_eq (JBool x) b = (num_val b = Some (if x then 1 else 0))"
| "py_eq (JInt i) b = (num_val b = Some (of_int i))"
| "py_eq (JFloat r) b = (num_val b = Some r)"
| "py_eq (JStr x) b = (b = JStr x)"
| "py_eq (JList xs) b =
     (case b of JList ys \<Rightarrow> list_all2 (\<lambda>f y. f y) (map py_eq xs) ys | _ \<Rightarrow> False)"
| "py_eq (JObj kvs) b =
     (case b of
        JObj kvs' \<Rightarrow>
          length kvs = length kvs' \<and>
          list_all (\<lambda>kf. case map_of kvs' (fst kf) of None \<Rightarrow> False | Some v \<Rightarrow> snd kf v)
            (map (map_prod id py_eq) kvs)
      | _ \<Rightarrow> False)"

definition py_ne :: "json \<Rightarrow> json \<Rightarrow> bool" where
  "py_ne a b \<longleftrightarrow> \<not> py_eq a b"

text \<open>
  An entry of \<open>diffs\<close>: \<open>{"index": i, "field": key, "ref": va, "now": vb}\<close> or
  \<open>{"index": "len", "ref": len(a), "now": len(b)}\<close>.
\<close>

datatype diff = FieldDiff nat string json json | LenDiff nat nat

definition compared_keys :: "string list" where
  "compared_keys = [''path'', ''sha256'', ''bytes'', ''cmd'', ''host'', ''port'']"

text \<open>The inner loop over the selected keys, for the events at index \<open>i\<close>.\<close>

definition compare_fields :: "nat \<Rightarrow> pydict \<Rightarrow> pydict \<Rightarrow> diff list \<Rightarrow> diff list" where
  "compare_fields i ea eb acc =
     fold (\<lambda>key ds. (let va = dict_get ea key; vb = dict_get eb key
                      in if py_ne va vb then ds @ [FieldDiff i key va vb] else ds))
       compared_keys acc"

text \<open>
  The loop \<open>for i in range(n)\<close> with \<open>n = min(len(a), len(b))\<close>, from index \<open>i\<close> on and
  with the events from that index on. \<open>ea["kind"]\<close> raises \<open>KeyError\<close> on an event
  without that key.
\<close>

fun compare_loop :: "nat \<Rightarrow> pydict list \<Rightarrow> pydict list \<Rightarrow> diff list \<Rightarrow> error + diff list" where
  "compare_loop i (ea # a) (eb # b) acc =
     (case map_of ea ''kind'' of
        None \<Rightarrow> Inl (KeyError ''kind'')
      | Some ka \<Rightarrow>
          (case map_of eb ''kind'' of
             None \<Rightarrow> Inl (KeyError ''kind'')
           | Some kb \<Rightarrow>
               (if py_ne ka kb then
                  compare_loop (Suc i) a b (acc @ [FieldDiff i ''kind'' ka kb])
                else compare_loop (Suc i) a b (compare_fields i ea eb acc))))"
| "compare_loop i a b acc = Inr acc"

definition compare_events :: "pydict list \<Rightarrow> pydict list \<Rightarrow> error + diff list" where
  "compare_events a b =
     (case compare_loop 0 a b [] of
        Inl e \<Rightarrow> Inl e
      | Inr acc \<Rightarrow>
          Inr (if length a \<noteq> length b then acc @ [LenDiff (length a) (length b)] else acc))"

text \<open>
  A loaded reference manifest: the value of its \<open>events\<close> key, a list of dicts, when it
  has that key, and \<open>ref.get("root_hash")\<close>.
\<close>

record reference =
  ref_events :: "pydict list option"
  ref_root_hash :: json

text \<open>\<open>" ".join(v)\<close> on a loaded JSON value: a dict is iterated by its keys, a string by
  its characters.\<close>

fun type_name :: "json \<Rightarrow> string" where
  "type_name JNull = ''NoneType''"
| "type_name (JBool b) = ''bool''"
| "type_name (JInt i) = ''int''"
| "type_name (JFloat r) = ''float''"
| "type_name (JStr x) = ''str''"
| "type_name (JList xs) = ''list''"
| "type_name (JObj kvs) = ''dict''"

fun digits :: "nat \<Rightarrow> string" where
  "digits n = (if n < 10 then [char_of (48 + n)] else digits (n div 10) @ [char_of (48 + n mod 10)])"

fun join_items :: "nat \<Rightarrow> json list \<Rightarrow> error + string list" where
  "join_items i [] = Inr []"
| "join_items i (JStr x # vs) =
     (case join_items (Suc i) vs of Inl e \<Rightarrow> Inl e | Inr xs \<Rightarrow> Inr (x # xs))"
| "join_items i (v # vs) =
     Inl (TypeError (''sequence item '' @ digits i @ '': expected str instance, '' @ type_name v
                      @ '' found''))"

fun join_json :: "json \<Rightarrow> error + string" where
  "join_json (JList vs) =
     (case join_items 0 vs of Inl e \<Rightarrow> Inl e | Inr xs \<Rightarrow> Inr (join '' '' xs))"
| "join_json (JStr x) = Inr (join '' '' (map (\<lambda>c. [c]) x))"
| "join_json (JObj kvs) = Inr (join '' '' (map fst kvs))"
| "join_json v = Inl (TypeError ''can only join an iterable'')"

record verify_result =
  ok :: bool
  diffs :: "diff list"
  reference_root :: json
  now_root :: json

text \<open>
  \<open>verify_run\<close>, from the loaded reference on. The argument line of the new run is
  computed first, then the target runs, then the events are compared.
\<close>

definition replay_args :: "reference \<Rightarrow> error + string option" where
  "replay_args ref =
     (case ref_events ref of
        Some (e # es) \<Rightarrow>
          (case join_json (case map_of e ''args'' of None \<Rightarrow> JList [] | Some v \<Rightarrow> v) of
             Inl err \<Rightarrow> Inl err
           | Inr line \<Rightarrow> Inr (Some line))
      | _ \<Rightarrow> Inr None)"

definition verify_run ::
  "lib \<Rightarrow> world \<Rightarrow> (string list \<Rightarrow> script) \<Rightarrow> string \<Rightarrow> reference \<Rightarrow> int \<Rightarrow> bool \<Rightarrow> globals
     \<Rightarrow> error + verify_result" where
  "verify_run L W prog target ref sd an g =
     (case replay_args ref of
        Inl err \<Rightarrow> Inl err
      | Inr args_line \<Rightarrow>
          (case fst (run_instrumented L W prog target args_line sd an g) of
             Inl err \<Rightarrow> Inl err
           | Inr now \<Rightarrow>
               (case ref_events ref of
                  None \<Rightarrow> Inl (KeyError ''events'')
                | Some a \<Rightarrow>
                    (case compare_events a (m_events now) of
                       Inl err \<Rightarrow> Inl err
                     | Inr ds \<Rightarrow>
                         Inr \<lparr>ok = (length ds = 0), diffs = ds,
                              reference_root = ref_root_hash ref,
                              now_root = JStr (m_root_hash now)\<rparr>))))"

section \<open>Uses of the objects\<close>

text \<open>
  A use of one \<open>EventLogger\<close>: a series of calls of its two public methods. A call
  returns or raises; \<open>log\<close> returns \<open>None\<close>, \<open>manifest\<close> returns the manifest.
\<close>

datatype method_call = CallLog rat string "(string \<times> json) list" | CallManifest

datatype method_result = Returned | ReturnedManifest Manifest | Raised error

fun call_method :: "lib \<Rightarrow> method_call \<Rightarrow> EventLogger \<Rightarrow> method_result \<times> EventLogger" where
  "call_method L (CallLog now kind flds) lg = (Returned, log_event L now kind flds lg)"
| "call_method L CallManifest lg = (ReturnedManifest (manifest L lg), lg)"

fun call_methods ::
  "lib \<Rightarrow> method_call list \<Rightarrow> EventLogger \<Rightarrow> method_result list \<times> EventLogger" where
  "call_methods L [] lg = ([], lg)"
| "call_methods L (c # cs) lg =
     (let r = call_method L c lg; rs = call_methods L cs (snd r) in (fst r # fst rs, snd rs))"

fun is_CallLog :: "method_call \<Rightarrow> bool" where
  "is_CallLog (CallLog now kind flds) = True"
| "is_CallLog CallManifest = False"

fun is_Raised :: "method_result \<Rightarrow> bool" where
  "is_Raised (Raised e) = True"
| "is_Raised r = False"

text \<open>
  A use of one \<open>IOShim\<close> between \<open>open\<close> and \<open>close\<close>: calls of \<open>write\<close> and
  \<open>writelines\<close>, each with the answers of the wrapped file.
\<close>

datatype write_call = DoWrite payload "error + nat" | DoWritelines "(payload \<times> (error + nat)) list"

fun apply_write :: "lib \<Rightarrow> write_call \<Rightarrow> IOShim \<Rightarrow> IOShim" where
  "apply_write L (DoWrite b ans) sh = snd (IOShim_write L b ans sh)"
| "apply_write L (DoWritelines lns) sh = snd (IOShim_writelines L lns sh)"

text \<open>
  The bytes passed to \<open>write\<close> in such a use, text encoded: every payload of a \<open>write\<close>
  call, and of a \<open>writelines\<close> call the lines up to the first one on which the wrapped
  file raises, that one included (the loop ends there).
\<close>

definition encoded :: "lib \<Rightarrow> payload \<Rightarrow> string" where
  "encoded L b = (case b of PStr x \<Rightarrow> str_encode L x | PBytes x \<Rightarrow> x)"

fun lines_passed :: "(payload \<times> (error + nat)) list \<Rightarrow> payload list" where
  "lines_passed [] = []"
| "lines_passed (l # ls) = fst l # (case snd l of Inl e \<Rightarrow> [] | Inr n \<Rightarrow> lines_passed ls)"

fun payloads_passed :: "write_call \<Rightarrow> payload list" where
  "payloads_passed (DoWrite b ans) = [b]"
| "payloads_passed (DoWritelines lns) = lines_passed lns"

definition bytes_passed :: "lib \<Rightarrow> write_call list \<Rightarrow> string" where
  "bytes_passed L ws = concat (map (encoded L) (concat (map payloads_passed ws)))"

text \<open>
  The life of one \<open>IOShim\<close> after \<open>open\<close>: calls of \<open>write\<close>, \<open>writelines\<close> and \<open>close\<close> in
  any order, \<open>close\<close> with the clock reading of its \<open>log\<close> call and the answer of the
  wrapped file's \<open>close\<close>. The object has no field that records a \<open>close\<close>.
\<close>

datatype shim_call = ShimWrite write_call | ShimClose rat "error + unit"

fun apply_shim_call :: "lib \<Rightarrow> shim_call \<Rightarrow> IOShim \<times> EventLogger \<Rightarrow> IOShim \<times> EventLogger" where
  "apply_shim_call L (ShimWrite w) st = (apply_write L w (fst st), snd st)"
| "apply_shim_call L (ShimClose now ans) st =
     (fst st, snd (IOShim_close L now ans (fst st) (snd st)))"

fun writes_of :: "shim_call list \<Rightarrow> write_call list" where
  "writes_of [] = []"
| "writes_of (ShimWrite w # cs) = w # writes_of cs"
| "writes_of (ShimClose now ans # cs) = writes_of cs"

fun is_ShimClose :: "shim_call \<Rightarrow> bool" where
  "is_ShimClose (ShimClose now ans) = True"
| "is_ShimClose (ShimWrite w) = False"

section \<open>A sample platform\<close>

text \<open>
  Concrete values at which the general theorems are instantiated. The digest and the
  serialisation of \<open>sample_lib\<close> are stand-ins: no statement below depends on the
  characters they produce.
\<close>

definition dq :: string where
  "dq = [char_of (34::nat)]"

fun show_int :: "int \<Rightarrow> string" where
  "show_int i = (if i < 0 then ''-'' @ digits (nat (- i)) else digits (nat i))"

primrec show_json :: "json \<Rightarrow> string" where
  "show_json JNull = ''null''"
| "show_json (JBool b) = (if b then ''true'' else ''false'')"
| "show_json (JInt i) = show_int i"
| "show_json (JFloat r) = show_int (fst (quotient_of r)) @ ''/'' @ show_int (snd (quotient_of r))"
| "show_json (JStr x) = dq @ x @ dq"
| "show_json (JList xs) = ''['' @ join '','' (map show_json xs) @ '']''"
| "show_json (JObj kvs) =
     ''{'' @ join '','' (map (\<lambda>kx. dq @ fst kx @ dq @ '':'' @ snd kx) (map (map_prod id show_json) kvs))
       @ ''}''"

definition sample_lib :: lib where
  "sample_lib =
     \<lparr> sha256_hex = (\<lambda>b. ''sha256:'' @ b),
       json_dumps = show_json,
       str_encode = (\<lambda>x. x),
       os_abspath = (\<lambda>p. ''/work/'' @ p) \<rparr>"

definition sample_world :: world where
  "sample_world =
     \<lparr> w_utcnow = ''2025-01-01T00:00:00'',
       w_monotonic = 100,
       w_clock = (\<lambda>n. 100 + of_nat (Suc n) / 1000),
       w_version = ''3.11'',
       w_platform = ''linux'',
       w_cwd = ''/work'',
       w_numpy = False,
       w_frames = 1000 \<rparr>"

text \<open>The same host with a monotonic clock that runs at another pace.\<close>

definition slow_world :: world where
  "slow_world = sample_world\<lparr>w_clock := (\<lambda>n. 100 + of_nat (Suc n) / 500)\<rparr>"

definition sample_globals :: globals where
  "sample_globals =
     \<lparr> builtins_open = OriginalOpen,
       socket_socket = OriginalSocket,
       subprocess_Popen = OriginalPopen,
       sys_argv = [''merklerun.py'', ''run'', ''t.py''] \<rparr>"

definition sample_logger :: EventLogger where
  "sample_logger =
     EventLogger_init ''2025-01-01T00:00:00'' 100 ''3.11'' ''linux'' ''/work'' 42 False"

text \<open>A target that makes no call on the wrappers and returns.\<close>

definition quiet_target :: "string list \<Rightarrow> script" where
  "quiet_target argv = \<lparr>calls = [], outcome = None\<rparr>"

text \<open>A target that raises \<open>ValueError('boom')\<close>, and one that calls \<open>sys.exit(1)\<close>.\<close>

definition failing_target :: "string list \<Rightarrow> script" where
  "failing_target argv =
     \<lparr>calls = [], outcome = Some (TargetError (''ValueError('' @ quoted ''boom'' @ '')''))\<rparr>"

definition exiting_target :: "string list \<Rightarrow> script" where
  "exiting_target argv = \<lparr>calls = [], outcome = Some (TargetExit ''SystemExit(1)'')\<rparr>"

text \<open>A target that spawns \<open>sys.argv[1]\<close> when it is given an argument.\<close>

definition spawning_target :: "string list \<Rightarrow> script" where
  "spawning_target argv =
     (if length argv \<le> 1 then \<lparr>calls = [], outcome = None\<rparr>
      else \<lparr>calls = [Popen (ArgList [argv ! 1]) (Inr ())], outcome = None\<rparr>)"

text \<open>
  Reference manifests. \<open>bare_events\<close> are the kinds of the events of a run, on the sample
  host, of a target that makes no call; none of these events has an \<open>args\<close> field.
\<close>

definition bare_events :: "pydict list" where
  "bare_events =
     [[(''kind'', JStr ''rng_seed'')], [(''kind'', JStr ''rng_seed_skip'')],
      [(''kind'', JStr ''begin'')], [(''kind'', JStr ''end'')]]"

definition ref_bare :: reference where
  "ref_bare = \<lparr>ref_events = Some bare_events, ref_root_hash = JNull\<rparr>"

text \<open>The same with a \<open>path\<close> field in the first event.\<close>

definition ref_extra_path :: reference where
  "ref_extra_path =
     \<lparr>ref_events = Some ([(''kind'', JStr ''rng_seed''), (''path'', JStr ''/x'')] # tl bare_events),
      ref_root_hash = JNull\<rparr>"

text \<open>The same with an \<open>args\<close> field in the first event.\<close>

definition ref_with_args :: reference where
  "ref_with_args =
     \<lparr>ref_events = Some ([(''kind'', JStr ''rng_seed''), (''args'', JList [JStr ''ls''])] # tl bare_events),
      ref_root_hash = JNull\<rparr>"

text \<open>The same with other chain hashes and another root hash.\<close>

definition ref_rechained :: reference where
  "ref_rechained =
     \<lparr>ref_events = Some (map (dict_set ''chain'' (JStr ''00'')) bare_events),
      ref_root_hash = JStr ''ff''\<rparr>"

text \<open>The first three events only.\<close>

definition ref_short :: reference where
  "ref_short = \<lparr>ref_events = Some (butlast bare_events), ref_root_hash = JNull\<rparr>"

section \<open>Properties\<close>

subsection \<open>Dictionaries and events\<close>


lemma map_of_dict_set: "map_of (dict_set k v d) = (map_of d)(k \<mapsto> v)"
  by (simp add: dict_set_def update_conv')

lemma dict_get_dict_set: "dict_get (dict_set k v d) k' = (if k' = k then v else dict_get d k')"
  by (simp add: dict_get_def map_of_dict_set)

lemma chain_of_dict_set: "chain_of (dict_set ''chain'' (JStr h) e) = h"
  by (simp add: chain_of_def dict_get_dict_set)

lemma log_event_events:
  "events (log_event L now k f lg) =
     events lg @ [dict_set ''chain''
        (JStr (sha256_hex L (prev_hash lg @ hash_dict L (new_event (now - start_mono lg) k f))))
        (new_event (now - start_mono lg) k f)]"
  by (simp add: log_event_def chain_def Let_def)

lemma log_event_prev_hash:
  "prev_hash (log_event L now k f lg) =
     sha256_hex L (prev_hash lg @ hash_dict L (new_event (now - start_mono lg) k f))"
  by (simp add: log_event_def chain_def Let_def)

lemma log_event_frame:
  "start_mono (log_event L now k f lg) = start_mono lg"
  "start_wall (log_event L now k f lg) = start_wall lg"
  "seed (log_event L now k f lg) = seed lg"
  "allow_net (log_event L now k f lg) = allow_net lg"
  "env (log_event L now k f lg) = env lg"
  by (simp_all add: log_event_def chain_def Let_def)

lemma log_all_snoc:
  "log_all L (cs @ [c]) lg = log_event L (fst c) (fst (snd c)) (snd (snd c)) (log_all L cs lg)"
  by (simp add: log_all_def)

lemma log_all_start_mono: "start_mono (log_all L cs lg) = start_mono lg"
  by (induction cs rule: rev_induct) (simp_all add: log_all_snoc log_event_frame log_all_def)

lemma log_all_length: "length (events (log_all L cs lg)) = length (events lg) + length cs"
  by (induction cs rule: rev_induct) (simp_all add: log_all_snoc log_event_events log_all_def)

lemma log_all_prev_hash:
  "cs \<noteq> [] \<Longrightarrow> prev_hash (log_all L cs lg) = chain_of (last (events (log_all L cs lg)))"
  by (cases cs rule: rev_cases)
     (simp_all add: log_all_snoc log_event_events log_event_prev_hash chain_of_dict_set)

lemma log_all_prefix:
  "i < length (events (log_all L cs lg)) \<Longrightarrow>
     events (log_all L (cs @ [c]) lg) ! i = events (log_all L cs lg) ! i"
  by (simp add: log_all_snoc log_event_events nth_append)

lemma log_all_nth:
  assumes "events lg = []" and "i < length cs"
  shows "events (log_all L cs lg) ! i =
     dict_set ''chain''
       (JStr (sha256_hex L
          ((if i = 0 then prev_hash lg else chain_of (events (log_all L cs lg) ! (i - 1)))
            @ hash_dict L (new_event (fst (cs ! i) - start_mono lg) (fst (snd (cs ! i))) (snd (snd (cs ! i)))))))
       (new_event (fst (cs ! i) - start_mono lg) (fst (snd (cs ! i))) (snd (snd (cs ! i))))"
  using assms(2)
proof (induction cs arbitrary: i rule: rev_induct)
  case Nil
  then show ?case by simp
next
  case (snoc c cs)
  have len: "length (events (log_all L cs lg)) = length cs"
    using assms(1) by (simp add: log_all_length)
  show ?case
  proof (cases "i < length cs")
    case True
    then have "i - 1 < length cs" by simp
    with True snoc.IH[OF True] len show ?thesis
      by (simp add: log_all_prefix nth_append)
  next
    case False
    with snoc.prems have i: "i = length cs" by simp
    show ?thesis
    proof (cases "cs = []")
      case True
      with i assms(1) show ?thesis
        by (simp add: log_all_snoc log_event_events log_all_def)
    next
      case False
      have ne: "events (log_all L cs lg) \<noteq> []"
        using False len by auto
      have "prev_hash (log_all L cs lg) = chain_of (events (log_all L cs lg) ! (length cs - 1))"
        using log_all_prev_hash[OF False, of L lg] len
        by (simp add: last_conv_nth[OF ne])
      moreover have "events (log_all L (cs @ [c]) lg) ! (length cs - 1) = events (log_all L cs lg) ! (length cs - 1)"
        using False len by (simp add: log_all_prefix)
      ultimately show ?thesis using i len False
        by (simp add: log_all_snoc log_event_events log_all_start_mono nth_append)
    qed
  qed
qed


text \<open>
  Claim C3. After any series of \<open>log\<close> calls on a fresh logger, the event stored at
  index \<open>i\<close> is the event of the \<open>i\<close>-th call with its \<open>chain\<close> field set to the digest of
  the previous event's chain hash followed by the digest of the canonical form of the
  event as it was before the chain field was embedded; for the first event the previous
  chain hash is sixty-four \<open>0\<close> characters.
\<close>

theorem chain_hash_of_logged_events:
  assumes "i < length cs"
  shows "events (log_all L cs (EventLogger_init u t0 v p c sd an)) ! i =
     dict_set ''chain''
       (JStr (sha256_hex L
          ((if i = 0 then replicate 64 (CHR ''0'')
            else chain_of (events (log_all L cs (EventLogger_init u t0 v p c sd an)) ! (i - 1)))
           @ sha256_hex L (json_dumps L
               (JObj (new_event (fst (cs ! i) - t0) (fst (snd (cs ! i))) (snd (snd (cs ! i)))))))))
       (new_event (fst (cs ! i) - t0) (fst (snd (cs ! i))) (snd (snd (cs ! i))))"
proof -
  have e: "events (EventLogger_init u t0 v p c sd an) = []"
    by (simp add: EventLogger_init_def)
  show ?thesis
    using log_all_nth[OF e assms, of L]
    by (simp add: EventLogger_init_def hash_dict_def)
qed

text \<open>The second of two events chains against the chain hash stored with the first.\<close>

theorem chain_hash_of_logged_events_witness:
  "(1::nat) < length [(101 :: rat, ''begin'', []), (102, ''end'', [(''status'', JStr ''ok'')])] \<and>
   events (log_all sample_lib [(101, ''begin'', []), (102, ''end'', [(''status'', JStr ''ok'')])]
             sample_logger) ! 1 =
     dict_set ''chain''
       (JStr (sha256_hex sample_lib
          (chain_of (events (log_all sample_lib
                       [(101, ''begin'', []), (102, ''end'', [(''status'', JStr ''ok'')])]
                       sample_logger) ! 0)
           @ sha256_hex sample_lib (json_dumps sample_lib
               (JObj (new_event 2 ''end'' [(''status'', JStr ''ok'')]))))))
       (new_event 2 ''end'' [(''status'', JStr ''ok'')])"
  using chain_hash_of_logged_events [of 1
      "[(101, ''begin'', []), (102, ''end'', [(''status'', JStr ''ok'')])]" sample_lib
      "''2025-01-01T00:00:00''" 100 "''3.11''" "''linux''" "''/work''" 42 False]
  by (simp add: sample_logger_def)

lemma call_methods_never_raise:
  "list_all (\<lambda>r. \<not> is_Raised r) (fst (call_methods L cs lg))"
proof (induction cs arbitrary: lg)
  case Nil
  then show ?case by simp
next
  case (Cons c cs)
  then show ?case by (cases c) (simp_all add: Let_def)
qed

lemma call_methods_events:
  "length (events (snd (call_methods L cs lg))) = length (events lg) + length (filter is_CallLog cs)"
proof (induction cs arbitrary: lg)
  case Nil
  then show ?case by simp
next
  case (Cons c cs)
  show ?case
  proof (cases c)
    case (CallLog now kind flds)
    then show ?thesis using Cons.IH[of "log_event L now kind flds lg"]
      by (simp add: log_event_events Let_def)
  next
    case CallManifest
    then show ?thesis using Cons.IH[of lg] by (simp add: Let_def)
  qed
qed

text \<open>
  Claim C7, as amended. \<open>manifest\<close> does not seal the logger: in any series of \<open>log\<close>
  and \<open>manifest\<close> calls, in any order and with \<open>manifest\<close> called any number of times, no
  call raises, and every \<open>log\<close> call appends one event.
\<close>

theorem log_after_manifest_accepted:
  "list_all (\<lambda>r. \<not> is_Raised r) (fst (call_methods L cs lg)) \<and>
   length (events (snd (call_methods L cs lg))) = length (events lg) + length (filter is_CallLog cs)"
  using call_methods_never_raise call_methods_events by blast

text \<open>
  Claim C7 as stated fails: \<open>manifest\<close>, then \<open>log\<close>, then \<open>manifest\<close> again; nothing is
  rejected and the event is in the log.
\<close>

theorem finalize_once_counterexample:
  "map is_Raised (fst (call_methods sample_lib
       [CallManifest, CallLog 101 ''late'' [], CallManifest] sample_logger)) = [False, False, False] \<and>
   length (events (snd (call_methods sample_lib
       [CallManifest, CallLog 101 ''late'' [], CallManifest] sample_logger))) = 1"
  by (simp add: log_event_events sample_logger_def EventLogger_init_def Let_def)



lemma map_of_fold_update:
  "map_of (fold (\<lambda>kv d. dict_set (fst kv) (snd kv) d) kvs d0) = map_of d0 ++ map_of (rev kvs)"
  by (induction kvs arbitrary: d0) (simp_all add: map_of_dict_set)

lemma map_of_dict_lit: "map_of (dict_lit kvs) = map_of (rev kvs)"
  by (simp add: dict_lit_def map_of_fold_update)

lemma map_of_new_event:
  "map_of (new_event rel kind flds) k =
     (case map_of (rev flds) k of
        Some v \<Rightarrow> Some v
      | None \<Rightarrow> (if k = ''kind'' then Some (JStr kind)
                 else if k = ''t'' then Some (JFloat (round6 rel)) else None))"
proof (cases "map_of (rev flds) k")
  case None
  then show ?thesis
    by (simp add: new_event_def map_of_dict_lit map_add_def)
next
  case (Some v)
  then show ?thesis
    by (simp add: new_event_def map_of_dict_lit map_add_def)
qed

lemma event_field:
  "dict_get (dict_set ''chain'' h (new_event rel kind flds)) k =
     (if k = ''chain'' then h
      else case map_of (rev flds) k of
             Some v \<Rightarrow> v
           | None \<Rightarrow> (if k = ''kind'' then JStr kind
                      else if k = ''t'' then JFloat (round6 rel) else JNull))"
proof (cases "k = ''chain''")
  case True
  then show ?thesis by (simp add: dict_get_dict_set)
next
  case False
  then show ?thesis
    by (cases "map_of (rev flds) k")
       (simp_all add: dict_get_def map_of_dict_set map_of_new_event)
qed

text \<open>
  Claim C4. With the network denied, \<open>connect\<close>, \<open>send\<close> and \<open>recv\<close> of a \<open>SocketShim\<close>
  each raise \<open>PermissionError("network disabled by merkle-run")\<close>, append exactly one event,
  of kind \<open>net_block\<close>, \<open>net_block_send\<close> and \<open>net_block_recv\<close>, and leave the calls made on
  the real socket as they were.
\<close>

theorem denied_network_calls:
  "fst (SocketShim_connect L now False (host, port) cans (lg, net))
      = Inl (PermissionError ''network disabled by merkle-run'') \<and>
   snd (snd (SocketShim_connect L now False (host, port) cans (lg, net))) = net \<and>
   (\<exists>ev. events (fst (snd (SocketShim_connect L now False (host, port) cans (lg, net))))
            = events lg @ [ev] \<and> dict_get ev ''kind'' = JStr ''net_block'') \<and>
   fst (SocketShim_send L now False data sans (lg, net))
      = Inl (PermissionError ''network disabled by merkle-run'') \<and>
   snd (snd (SocketShim_send L now False data sans (lg, net))) = net \<and>
   (\<exists>ev. events (fst (snd (SocketShim_send L now False data sans (lg, net))))
            = events lg @ [ev] \<and> dict_get ev ''kind'' = JStr ''net_block_send'') \<and>
   fst (SocketShim_recv L now False bufsize rans (lg, net))
      = Inl (PermissionError ''network disabled by merkle-run'') \<and>
   snd (snd (SocketShim_recv L now False bufsize rans (lg, net))) = net \<and>
   (\<exists>ev. events (fst (snd (SocketShim_recv L now False bufsize rans (lg, net))))
            = events lg @ [ev] \<and> dict_get ev ''kind'' = JStr ''net_block_recv'')"
  by (simp add: SocketShim_connect_def SocketShim_send_def SocketShim_recv_def
        log_event_events event_field)

text \<open>
  Claim C8. Whatever the target does and however it ends, when \<open>run_instrumented\<close>
  returns or raises, \<open>builtins.open\<close>, \<open>socket.socket\<close>, \<open>subprocess.Popen\<close> and \<open>sys.argv\<close>
  have the values they had before the call.
\<close>

theorem run_instrumented_restores_globals:
  "r_globals (snd (run_instrumented L W prog target args_line sd an g)) = g"
  by (simp add: run_instrumented_def patch_open_def patch_socket_def patch_subprocess_def
        Let_def split: option.splits)

subsection \<open>IOShim\<close>

lemma IOShim_write_fields:
  "shim_hasher (snd (IOShim_write L b ans sh)) = shim_hasher sh @ encoded L b"
  "shim_written (snd (IOShim_write L b ans sh)) = shim_written sh + length (encoded L b)"
  "shim_mode (snd (IOShim_write L b ans sh)) = shim_mode sh"
  "shim_path (snd (IOShim_write L b ans sh)) = shim_path sh"
  "fst (IOShim_write L b ans sh) = ans"
  by (simp_all add: IOShim_write_def encoded_def Let_def)

lemma writelines_loop_fields:
  "shim_hasher (snd (writelines_loop L tot lns sh))
     = shim_hasher sh @ concat (map (encoded L) (lines_passed lns)) \<and>
   shim_written (snd (writelines_loop L tot lns sh))
     = shim_written sh + length (concat (map (encoded L) (lines_passed lns))) \<and>
   shim_mode (snd (writelines_loop L tot lns sh)) = shim_mode sh \<and>
   shim_path (snd (writelines_loop L tot lns sh)) = shim_path sh"
proof (induction lns arbitrary: tot sh)
  case Nil
  then show ?case by simp
next
  case (Cons l lns)
  let ?sh = "sh\<lparr>shim_written := shim_written sh + length (encoded L (fst l)),
                  shim_hasher := shim_hasher sh @ encoded L (fst l)\<rparr>"
  have w: "IOShim_write L (fst l) r sh = (r, ?sh)" for r
    by (simp add: IOShim_write_def encoded_def Let_def)
  show ?case
  proof (cases "snd l")
    case (Inl e)
    then show ?thesis by (simp add: w)
  next
    case (Inr n)
    then show ?thesis using Cons.IH[of "tot + n" ?sh] by (simp add: w)
  qed
qed

lemma apply_write_fields:
  "shim_hasher (apply_write L w sh) = shim_hasher sh @ concat (map (encoded L) (payloads_passed w)) \<and>
   shim_written (apply_write L w sh)
     = shim_written sh + length (concat (map (encoded L) (payloads_passed w))) \<and>
   shim_mode (apply_write L w sh) = shim_mode sh \<and>
   shim_path (apply_write L w sh) = shim_path sh"
  by (cases w) (simp_all add: IOShim_write_fields IOShim_writelines_def writelines_loop_fields)

lemma fold_apply_write_fields:
  "shim_hasher (fold (apply_write L) ws sh) = shim_hasher sh @ bytes_passed L ws \<and>
   shim_written (fold (apply_write L) ws sh) = shim_written sh + length (bytes_passed L ws) \<and>
   shim_mode (fold (apply_write L) ws sh) = shim_mode sh \<and>
   shim_path (fold (apply_write L) ws sh) = shim_path sh"
proof (induction ws arbitrary: sh)
  case Nil
  then show ?case by (simp add: bytes_passed_def)
next
  case (Cons w ws)
  show ?case
    using Cons.IH[of "apply_write L w sh"] apply_write_fields[of L w sh]
    by (simp add: bytes_passed_def)
qed

lemma open_wrapper_wrapped:
  assumes "open_wrapper d L clock bo fi path mode lg0 = (Inr h, lg1)" and "write_mode mode"
  shows "h = Wrapped \<lparr>shim_path = path, shim_mode = mode, shim_written = 0, shim_hasher = []\<rparr>"
proof (cases d)
  case 0
  with assms show ?thesis by simp
next
  case (Suc d')
  with assms show ?thesis
    by (auto simp: Let_def split: if_splits prod.splits sum.splits option.splits)
qed

lemma bytes_passed_Cons:
  "bytes_passed L (w # ws) = concat (map (encoded L) (payloads_passed w)) @ bytes_passed L ws"
  by (simp add: bytes_passed_def)

lemma fold_shim_calls_fields:
  "shim_hasher (fst (fold (apply_shim_call L) cs st))
     = shim_hasher (fst st) @ bytes_passed L (writes_of cs) \<and>
   shim_written (fst (fold (apply_shim_call L) cs st))
     = shim_written (fst st) + length (bytes_passed L (writes_of cs)) \<and>
   shim_mode (fst (fold (apply_shim_call L) cs st)) = shim_mode (fst st) \<and>
   shim_path (fst (fold (apply_shim_call L) cs st)) = shim_path (fst st)"
proof (induction cs arbitrary: st)
  case Nil
  then show ?case by (simp add: bytes_passed_def)
next
  case (Cons c cs)
  show ?case
  proof (cases c)
    case (ShimWrite w)
    then show ?thesis
      using Cons.IH[of "(apply_write L w (fst st), snd st)"] apply_write_fields[of L w "fst st"]
      by (simp add: bytes_passed_Cons)
  next
    case (ShimClose now ans)
    then show ?thesis
      using Cons.IH[of "(fst st, snd (IOShim_close L now ans (fst st) (snd st)))"]
      by simp
  qed
qed

lemma IOShim_close_length:
  "write_mode (shim_mode sh) \<Longrightarrow>
     length (events (snd (IOShim_close L now ans sh lg))) = Suc (length (events lg))"
  by (simp add: IOShim_close_def log_event_events)

lemma fold_shim_calls_events:
  "write_mode (shim_mode (fst st)) \<Longrightarrow>
     length (events (snd (fold (apply_shim_call L) cs st)))
       = length (events (snd st)) + length (filter is_ShimClose cs)"
proof (induction cs arbitrary: st)
  case Nil
  then show ?case by simp
next
  case (Cons c cs)
  show ?case
  proof (cases c)
    case (ShimWrite w)
    have "write_mode (shim_mode (apply_write L w (fst st)))"
      using Cons.prems apply_write_fields[of L w "fst st"] by simp
    then show ?thesis
      using Cons.IH[of "(apply_write L w (fst st), snd st)"] ShimWrite by simp
  next
    case (ShimClose now ans)
    then show ?thesis
      using Cons.IH[of "(fst st, snd (IOShim_close L now ans (fst st) (snd st)))"] Cons.prems
      by (simp add: IOShim_close_length)
  qed
qed

text \<open>
  Claim C5, as amended. When \<open>open\<close> in a mode with \<open>w\<close>, \<open>a\<close> or \<open>x\<close> returns a handle, the
  handle is an \<open>IOShim\<close>, and in any series of \<open>write\<close>, \<open>writelines\<close> and \<open>close\<close> calls on it
  every \<open>close\<close> call appends exactly one event and nothing else appends any, so the
  handle has logged as many events as it has been closed. The event of a \<open>close\<close> has
  the kind \<open>file_write_close\<close>, its \<open>bytes\<close> is the number of bytes passed to \<open>write\<close> until
  then, text encoded, and its \<open>sha256\<close> is the digest of their concatenation.
\<close>

theorem every_close_logs_file_write_close:
  assumes "open_wrapper d L clock bo fi path mode lg0 = (Inr h, lg1)"
    and "write_mode mode"
  shows "\<exists>sh. h = Wrapped sh \<and>
     length (events (snd (fold (apply_shim_call L) cs (sh, lg))))
       = length (events lg) + length (filter is_ShimClose cs) \<and>
     (\<exists>ev. events (snd (fold (apply_shim_call L) (cs @ [ShimClose now cans]) (sh, lg)))
             = events (snd (fold (apply_shim_call L) cs (sh, lg))) @ [ev] \<and>
       dict_get ev ''kind'' = JStr ''file_write_close'' \<and>
       dict_get ev ''bytes'' = JInt (int (length (bytes_passed L (writes_of cs)))) \<and>
       dict_get ev ''sha256'' = JStr (sha256_hex L (bytes_passed L (writes_of cs))))"
proof -
  let ?sh = "\<lparr>shim_path = path, shim_mode = mode, shim_written = 0, shim_hasher = []\<rparr>"
  have h: "h = Wrapped ?sh"
    using open_wrapper_wrapped[OF assms] .
  have f: "shim_hasher (fst (fold (apply_shim_call L) cs (?sh, lg))) = bytes_passed L (writes_of cs)"
    "shim_written (fst (fold (apply_shim_call L) cs (?sh, lg))) = length (bytes_passed L (writes_of cs))"
    "shim_mode (fst (fold (apply_shim_call L) cs (?sh, lg))) = mode"
    using fold_shim_calls_fields[of L cs "(?sh, lg)"] by simp_all
  have n: "length (events (snd (fold (apply_shim_call L) cs (?sh, lg))))
       = length (events lg) + length (filter is_ShimClose cs)"
    using fold_shim_calls_events[of "(?sh, lg)" L cs] assms(2) by simp
  show ?thesis
    using h assms(2) n
    by (simp add: IOShim_close_def f log_event_events event_field)
qed

text \<open>A binary write of three bytes and a line of text, then \<open>close\<close>.\<close>

theorem every_close_logs_file_write_close_witness:
  "open_wrapper (Suc 0) sample_lib (w_clock sample_world) OpenWrapper
      \<lparr>fi_exists = False, fi_content = [], fi_open = (\<lambda>m. None)\<rparr> ''out.bin'' ''wb'' sample_logger
     = (Inr (Wrapped \<lparr>shim_path = ''out.bin'', shim_mode = ''wb'', shim_written = 0, shim_hasher = []\<rparr>),
        log_at sample_lib (w_clock sample_world) ''file_open''
          [(''path'', JStr (os_abspath sample_lib ''out.bin'')), (''mode'', JStr ''wb'')] sample_logger) \<and>
   write_mode ''wb'' \<and>
   (\<exists>sh. Wrapped \<lparr>shim_path = ''out.bin'', shim_mode = ''wb'', shim_written = 0, shim_hasher = []\<rparr>
              = Wrapped sh \<and>
     length (events (snd (fold (apply_shim_call sample_lib)
         [ShimWrite (DoWrite (PBytes ''abc'') (Inr 3)), ShimWrite (DoWritelines [(PStr ''de'', Inr 2)])]
         (sh, sample_logger))))
       = length (events sample_logger) + length (filter is_ShimClose
         [ShimWrite (DoWrite (PBytes ''abc'') (Inr 3)), ShimWrite (DoWritelines [(PStr ''de'', Inr 2)])]) \<and>
     (\<exists>ev. events (snd (fold (apply_shim_call sample_lib)
         ([ShimWrite (DoWrite (PBytes ''abc'') (Inr 3)), ShimWrite (DoWritelines [(PStr ''de'', Inr 2)])]
            @ [ShimClose 105 (Inr ())]) (sh, sample_logger)))
             = events (snd (fold (apply_shim_call sample_lib)
         [ShimWrite (DoWrite (PBytes ''abc'') (Inr 3)), ShimWrite (DoWritelines [(PStr ''de'', Inr 2)])]
         (sh, sample_logger))) @ [ev] \<and>
       dict_get ev ''kind'' = JStr ''file_write_close'' \<and>
       dict_get ev ''bytes'' = JInt (int (length (bytes_passed sample_lib (writes_of
         [ShimWrite (DoWrite (PBytes ''abc'') (Inr 3)), ShimWrite (DoWritelines [(PStr ''de'', Inr 2)])])))) \<and>
       dict_get ev ''sha256'' = JStr (sha256_hex sample_lib (bytes_passed sample_lib (writes_of
         [ShimWrite (DoWrite (PBytes ''abc'') (Inr 3)), ShimWrite (DoWritelines [(PStr ''de'', Inr 2)])])))))"
proof -
  have o: "open_wrapper (Suc 0) sample_lib (w_clock sample_world) OpenWrapper
      \<lparr>fi_exists = False, fi_content = [], fi_open = (\<lambda>m. None)\<rparr> ''out.bin'' ''wb'' sample_logger
     = (Inr (Wrapped \<lparr>shim_path = ''out.bin'', shim_mode = ''wb'', shim_written = 0, shim_hasher = []\<rparr>),
        log_at sample_lib (w_clock sample_world) ''file_open''
          [(''path'', JStr (os_abspath sample_lib ''out.bin'')), (''mode'', JStr ''wb'')] sample_logger)"
    by (simp add: write_mode_def)
  have m: "write_mode ''wb''" by (simp add: write_mode_def)
  show ?thesis
    using o m every_close_logs_file_write_close [OF o m, of
        "[ShimWrite (DoWrite (PBytes ''abc'') (Inr 3)), ShimWrite (DoWritelines [(PStr ''de'', Inr 2)])]"
        sample_logger 105 "Inr ()"]
    by blast
qed

text \<open>
  Claim C5 as stated fails: the handle that \<open>open("out.bin", "wb")\<close> returns, written to
  once and closed twice, has logged two \<open>file_write_close\<close> events.
\<close>

theorem closed_twice_counterexample:
  "fst (open_wrapper (Suc 0) sample_lib (w_clock sample_world) OpenWrapper
      \<lparr>fi_exists = False, fi_content = [], fi_open = (\<lambda>m. None)\<rparr> ''out.bin'' ''wb'' sample_logger)
     = Inr (Wrapped \<lparr>shim_path = ''out.bin'', shim_mode = ''wb'', shim_written = 0, shim_hasher = []\<rparr>) \<and>
   map (\<lambda>e. (dict_get e ''kind'', dict_get e ''bytes''))
     (events (snd (fold (apply_shim_call sample_lib)
        [ShimWrite (DoWrite (PBytes ''abc'') (Inr 3)), ShimClose 105 (Inr ()), ShimClose 106 (Inr ())]
        (\<lparr>shim_path = ''out.bin'', shim_mode = ''wb'', shim_written = 0, shim_hasher = []\<rparr>,
         sample_logger))))
   = [(JStr ''file_write_close'', JInt 3), (JStr ''file_write_close'', JInt 3)]"
  by (simp add: write_mode_def IOShim_close_def IOShim_write_def log_event_events event_field
        sample_logger_def EventLogger_init_def)

subsection \<open>Runs\<close>

lemma log_at_events:
  "events (log_at L clock kind flds lg) =
     events lg @ [dict_set ''chain''
        (JStr (sha256_hex L (prev_hash lg @
           hash_dict L (new_event (clock (length (events lg)) - start_mono lg) kind flds))))
        (new_event (clock (length (events lg)) - start_mono lg) kind flds)]"
  by (simp add: log_at_def log_event_events)

lemma log_at_start_mono: "start_mono (log_at L clock kind flds lg) = start_mono lg"
  by (simp add: log_at_def log_event_frame)

lemma seed_all_events:
  "\<exists>e1 e2. events (seed_all L W sd lg) = events lg @ [e1, e2]"
  by (simp add: seed_all_def Let_def log_at_events)

text \<open>
  Claim C2, the code at a failing input. A target that raises \<open>ValueError('boom')\<close>: the
  \<open>end\<close> event with status \<open>exception\<close> is appended to the logger, and the call ends with
  the exception; \<open>return logger.manifest()\<close> is not reached, so no manifest is
  produced. A target that ends with \<open>SystemExit\<close>: the \<open>except Exception\<close> clause does not
  catch it, and the last event of the log is still \<open>begin\<close>.
\<close>

theorem exception_path_returns_no_manifest:
  "fst (run_instrumented sample_lib sample_world failing_target ''t.py'' None 42 False sample_globals)
     = Inl (TargetError (''ValueError('' @ quoted ''boom'' @ '')'')) \<and>
   dict_get (last (events (r_logger (snd (run_instrumented sample_lib sample_world failing_target
       ''t.py'' None 42 False sample_globals))))) ''status'' = JStr ''exception'' \<and>
   fst (run_instrumented sample_lib sample_world exiting_target ''t.py'' None 42 False sample_globals)
     = Inl (TargetExit ''SystemExit(1)'') \<and>
   dict_get (last (events (r_logger (snd (run_instrumented sample_lib sample_world exiting_target
       ''t.py'' None 42 False sample_globals))))) ''kind'' = JStr ''begin''"
  by (simp add: run_instrumented_def failing_target_def exiting_target_def Let_def
        patch_open_def patch_socket_def patch_subprocess_def log_at_events event_field)

lemma round6_milli: "round6 (1 / 1000) = 1 / 1000" "round6 (1 / 500) = 1 / 500"
  by (simp_all add: round6_def round_half_even_def Let_def)

text \<open>
  Claim C1, the code at a failing input. Two runs of the same target, which makes no call
  at all, with the same seed and policy, on hosts that differ in nothing but the pace of
  the monotonic clock: the root hash of each is the digest of the canonical form of its
  event list, every event holds the rounded clock reading \<open>t\<close>, and the two event lists
  differ.
\<close>

theorem root_hash_follows_clock:
  "\<exists>mA mB.
     fst (run_instrumented L sample_world quiet_target ''t.py'' None 42 False sample_globals) = Inr mA \<and>
     fst (run_instrumented L slow_world quiet_target ''t.py'' None 42 False sample_globals) = Inr mB \<and>
     m_root_hash mA = sha256_hex L (json_dumps L (JObj [(''events'', JList (map JObj (m_events mA)))])) \<and>
     m_root_hash mB = sha256_hex L (json_dumps L (JObj [(''events'', JList (map JObj (m_events mB)))])) \<and>
     dict_get (hd (m_events mA)) ''t'' = JFloat (1 / 1000) \<and>
     dict_get (hd (m_events mB)) ''t'' = JFloat (1 / 500) \<and>
     m_events mA \<noteq> m_events mB"
proof -
  let ?rA = "run_instrumented L sample_world quiet_target ''t.py'' None 42 False sample_globals"
  let ?rB = "run_instrumented L slow_world quiet_target ''t.py'' None 42 False sample_globals"
  let ?mA = "manifest L (r_logger (snd ?rA))"
  let ?mB = "manifest L (r_logger (snd ?rB))"
  have a: "fst ?rA = Inr ?mA"
    by (simp add: run_instrumented_def quiet_target_def Let_def split: prod.splits)
  have b: "fst ?rB = Inr ?mB"
    by (simp add: run_instrumented_def quiet_target_def Let_def split: prod.splits)
  have ta: "dict_get (hd (m_events ?mA)) ''t'' = JFloat (1 / 1000)"
    by (simp add: run_instrumented_def quiet_target_def Let_def sample_world_def
          patch_open_def patch_socket_def patch_subprocess_def seed_all_def log_at_events
          event_field manifest_def EventLogger_init_def round6_milli)
  have tb: "dict_get (hd (m_events ?mB)) ''t'' = JFloat (1 / 500)"
    by (simp add: run_instrumented_def quiet_target_def Let_def sample_world_def slow_world_def
          patch_open_def patch_socket_def patch_subprocess_def seed_all_def log_at_events
          event_field manifest_def EventLogger_init_def round6_milli)
  have ne: "m_events ?mA \<noteq> m_events ?mB"
  proof
    assume "m_events ?mA = m_events ?mB"
    with ta tb have "JFloat (1 / 1000) = JFloat (1 / 500)" by simp
    then show False by simp
  qed
  have ra: "m_root_hash ?mA = sha256_hex L (json_dumps L (JObj [(''events'', JList (map JObj (m_events ?mA)))]))"
    by (simp add: manifest_def hash_dict_def)
  have rb: "m_root_hash ?mB = sha256_hex L (json_dumps L (JObj [(''events'', JList (map JObj (m_events ?mB)))]))"
    by (simp add: manifest_def hash_dict_def)
  from a b ta tb ne ra rb show ?thesis by blast
qed

subsection \<open>Verify\<close>

lemma fold_cond_append:
  "fold (\<lambda>k ds. if Q k then ds @ [F k] else ds) ks acc = acc @ map F (filter Q ks)"
  by (induction ks arbitrary: acc) simp_all

lemma compare_fields_eq:
  "compare_fields i ea eb acc =
     acc @ map (\<lambda>k. FieldDiff i k (dict_get ea k) (dict_get eb k))
              (filter (\<lambda>k. py_ne (dict_get ea k) (dict_get eb k)) compared_keys)"
  by (simp add: compare_fields_def Let_def fold_cond_append)

lemma dict_get_Some: "map_of d k = Some v \<Longrightarrow> dict_get d k = v"
  by (simp add: dict_get_def)

lemma compare_loop_spec:
  "compare_loop i a b acc = Inr ds \<Longrightarrow>
   \<exists>new. ds = acc @ new \<and>
     (\<forall>x y. LenDiff x y \<notin> set new) \<and>
     (\<forall>j f x y. FieldDiff j f x y \<in> set new \<longleftrightarrow>
        i \<le> j \<and> j - i < min (length a) (length b) \<and>
        x = dict_get (a ! (j - i)) f \<and> y = dict_get (b ! (j - i)) f \<and> py_ne x y \<and>
        (f = ''kind'' \<or>
         (f \<in> set compared_keys \<and>
          \<not> py_ne (dict_get (a ! (j - i)) ''kind'') (dict_get (b ! (j - i)) ''kind''))))"
proof (induction i a b acc arbitrary: ds rule: compare_loop.induct)
  case (1 i ea a eb b acc)
  from "1.prems" obtain ka where ka: "map_of ea ''kind'' = Some ka"
    by (cases "map_of ea ''kind''") simp_all
  from "1.prems" ka obtain kb where kb: "map_of eb ''kind'' = Some kb"
    by (cases "map_of eb ''kind''") simp_all
  have ga: "dict_get ea ''kind'' = ka" and gb: "dict_get eb ''kind'' = kb"
    using ka kb by (simp_all add: dict_get_Some)
  show ?case
  proof (cases "py_ne ka kb")
    case True
    with "1.prems" ka kb
    have "compare_loop (Suc i) a b (acc @ [FieldDiff i ''kind'' ka kb]) = Inr ds" by simp
    from "1.IH"(1)[OF ka kb True this]
    obtain new where n: "ds = (acc @ [FieldDiff i ''kind'' ka kb]) @ new"
      and nl: "\<forall>x y. LenDiff x y \<notin> set new"
      and nf: "\<forall>j f x y. FieldDiff j f x y \<in> set new \<longleftrightarrow>
        Suc i \<le> j \<and> j - Suc i < min (length a) (length b) \<and>
        x = dict_get (a ! (j - Suc i)) f \<and> y = dict_get (b ! (j - Suc i)) f \<and> py_ne x y \<and>
        (f = ''kind'' \<or>
         (f \<in> set compared_keys \<and>
          \<not> py_ne (dict_get (a ! (j - Suc i)) ''kind'') (dict_get (b ! (j - Suc i)) ''kind'')))"
      by blast
    let ?new = "FieldDiff i ''kind'' ka kb # new"
    have "ds = acc @ ?new" using n by simp
    moreover have "\<forall>x y. LenDiff x y \<notin> set ?new" using nl by simp
    moreover have "\<forall>j f x y. FieldDiff j f x y \<in> set ?new \<longleftrightarrow>
        i \<le> j \<and> j - i < min (length (ea # a)) (length (eb # b)) \<and>
        x = dict_get ((ea # a) ! (j - i)) f \<and> y = dict_get ((eb # b) ! (j - i)) f \<and> py_ne x y \<and>
        (f = ''kind'' \<or>
         (f \<in> set compared_keys \<and>
          \<not> py_ne (dict_get ((ea # a) ! (j - i)) ''kind'') (dict_get ((eb # b) ! (j - i)) ''kind'')))"
    proof (intro allI)
      fix j f x y
      show "FieldDiff j f x y \<in> set ?new \<longleftrightarrow>
        i \<le> j \<and> j - i < min (length (ea # a)) (length (eb # b)) \<and>
        x = dict_get ((ea # a) ! (j - i)) f \<and> y = dict_get ((eb # b) ! (j - i)) f \<and> py_ne x y \<and>
        (f = ''kind'' \<or>
         (f \<in> set compared_keys \<and>
          \<not> py_ne (dict_get ((ea # a) ! (j - i)) ''kind'') (dict_get ((eb # b) ! (j - i)) ''kind'')))"
      proof (cases "j = i")
        case True
        have "FieldDiff j f x y \<notin> set new" using nf True by simp
        then show ?thesis using True \<open>py_ne ka kb\<close> ga gb by auto
      next
        case False
        show ?thesis
        proof (cases "i < j")
          case True
          then have s: "j - i = Suc (j - Suc i)" by simp
          have "FieldDiff j f x y \<in> set ?new \<longleftrightarrow> FieldDiff j f x y \<in> set new"
            using False by simp
          then show ?thesis using nf True by (simp add: s)
        next
          case f2: False
          with False have "j < i" by simp
          then show ?thesis using nf by simp
        qed
      qed
    qed
    ultimately show ?thesis by blast
  next
    case False
    let ?fs = "map (\<lambda>k. FieldDiff i k (dict_get ea k) (dict_get eb k))
              (filter (\<lambda>k. py_ne (dict_get ea k) (dict_get eb k)) compared_keys)"
    from "1.prems" ka kb False
    have "compare_loop (Suc i) a b (compare_fields i ea eb acc) = Inr ds" by simp
    from "1.IH"(2)[OF ka kb False this]
    obtain new where n: "ds = compare_fields i ea eb acc @ new"
      and nl: "\<forall>x y. LenDiff x y \<notin> set new"
      and nf: "\<forall>j f x y. FieldDiff j f x y \<in> set new \<longleftrightarrow>
        Suc i \<le> j \<and> j - Suc i < min (length a) (length b) \<and>
        x = dict_get (a ! (j - Suc i)) f \<and> y = dict_get (b ! (j - Suc i)) f \<and> py_ne x y \<and>
        (f = ''kind'' \<or>
         (f \<in> set compared_keys \<and>
          \<not> py_ne (dict_get (a ! (j - Suc i)) ''kind'') (dict_get (b ! (j - Suc i)) ''kind'')))"
      by blast
    let ?new = "?fs @ new"
    have "ds = acc @ ?new" using n by (simp add: compare_fields_eq)
    moreover have "\<forall>x y. LenDiff x y \<notin> set ?new" using nl by auto
    moreover have "\<forall>j f x y. FieldDiff j f x y \<in> set ?new \<longleftrightarrow>
        i \<le> j \<and> j - i < min (length (ea # a)) (length (eb # b)) \<and>
        x = dict_get ((ea # a) ! (j - i)) f \<and> y = dict_get ((eb # b) ! (j - i)) f \<and> py_ne x y \<and>
        (f = ''kind'' \<or>
         (f \<in> set compared_keys \<and>
          \<not> py_ne (dict_get ((ea # a) ! (j - i)) ''kind'') (dict_get ((eb # b) ! (j - i)) ''kind'')))"
    proof (intro allI)
      fix j f x y
      have fs: "FieldDiff j f x y \<in> set ?fs \<longleftrightarrow>
          j = i \<and> f \<in> set compared_keys \<and> x = dict_get ea f \<and> y = dict_get eb f \<and> py_ne x y"
        by auto
      show "FieldDiff j f x y \<in> set ?new \<longleftrightarrow>
        i \<le> j \<and> j - i < min (length (ea # a)) (length (eb # b)) \<and>
        x = dict_get ((ea # a) ! (j - i)) f \<and> y = dict_get ((eb # b) ! (j - i)) f \<and> py_ne x y \<and>
        (f = ''kind'' \<or>
         (f \<in> set compared_keys \<and>
          \<not> py_ne (dict_get ((ea # a) ! (j - i)) ''kind'') (dict_get ((eb # b) ! (j - i)) ''kind'')))"
      proof (cases "j = i")
        case True
        have "FieldDiff j f x y \<notin> set new" using nf True by simp
        then have "FieldDiff j f x y \<in> set ?new \<longleftrightarrow> FieldDiff j f x y \<in> set ?fs" by simp
        then show ?thesis using True \<open>\<not> py_ne ka kb\<close> ga gb fs by auto
      next
        case False
        then have nfs: "FieldDiff j f x y \<notin> set ?fs" using fs by simp
        show ?thesis
        proof (cases "i < j")
          case True
          then have s: "j - i = Suc (j - Suc i)" by simp
          have "FieldDiff j f x y \<in> set ?new \<longleftrightarrow> FieldDiff j f x y \<in> set new"
            using nfs by simp
          then show ?thesis using nf True by (simp add: s)
        next
          case f2: False
          with False have "j < i" by simp
          then show ?thesis using nf nfs by simp
        qed
      qed
    qed
    ultimately show ?thesis by blast
  qed
qed simp_all

lemma compare_events_spec:
  assumes "compare_events a b = Inr ds"
  shows "(\<forall>i f x y. FieldDiff i f x y \<in> set ds \<longleftrightarrow>
        i < min (length a) (length b) \<and>
        x = dict_get (a ! i) f \<and> y = dict_get (b ! i) f \<and> py_ne x y \<and>
        (f = ''kind'' \<or>
         (f \<in> set compared_keys \<and> \<not> py_ne (dict_get (a ! i) ''kind'') (dict_get (b ! i) ''kind'')))) \<and>
     (\<forall>x y. LenDiff x y \<in> set ds \<longleftrightarrow> length a \<noteq> length b \<and> x = length a \<and> y = length b) \<and>
     count_list ds (LenDiff (length a) (length b)) = (if length a \<noteq> length b then 1 else 0)"
proof -
  from assms obtain ds0 where l: "compare_loop 0 a b [] = Inr ds0"
    and d: "ds = (if length a \<noteq> length b then ds0 @ [LenDiff (length a) (length b)] else ds0)"
    by (auto simp: compare_events_def split: sum.splits)
  from compare_loop_spec[OF l]
  have nl: "\<forall>x y. LenDiff x y \<notin> set ds0"
    and nf: "\<forall>j f x y. FieldDiff j f x y \<in> set ds0 \<longleftrightarrow>
        j < min (length a) (length b) \<and>
        x = dict_get (a ! j) f \<and> y = dict_get (b ! j) f \<and> py_ne x y \<and>
        (f = ''kind'' \<or>
         (f \<in> set compared_keys \<and> \<not> py_ne (dict_get (a ! j) ''kind'') (dict_get (b ! j) ''kind'')))"
    by simp_all
  have c0: "count_list ds0 (LenDiff (length a) (length b)) = 0"
    using nl by (simp add: count_list_0_iff)
  have "\<forall>i f x y. FieldDiff i f x y \<in> set ds \<longleftrightarrow> FieldDiff i f x y \<in> set ds0"
    using d by simp
  moreover have "\<forall>x y. LenDiff x y \<in> set ds \<longleftrightarrow> length a \<noteq> length b \<and> x = length a \<and> y = length b"
    using d nl by auto
  moreover have "count_list ds (LenDiff (length a) (length b)) = (if length a \<noteq> length b then 1 else 0)"
    using d c0 by (cases "length a = length b") simp_all
  ultimately show ?thesis using nf by simp
qed

text \<open>
  Claim C6, as amended. When \<open>verify_run\<close> returns a result, its divergences are exactly
  these: for every index below the shorter of the two lengths, a divergence on \<open>kind\<close>
  when the kinds differ and nothing else for that index; when the kinds are equal, a
  divergence on each of \<open>path\<close>, \<open>sha256\<close>, \<open>bytes\<close>, \<open>cmd\<close>, \<open>host\<close>, \<open>port\<close> whose values
  differ, a field that an event does not define being read as \<open>None\<close>, so that a field
  defined on one side only is a divergence; and exactly one divergence for the lengths
  when they differ. \<open>ok\<close> is true iff the list is empty.
\<close>

theorem verify_run_comparison:
  assumes "verify_run L W prog target ref sd an g = Inr r"
  shows "\<exists>a line now.
     ref_events ref = Some a \<and> replay_args ref = Inr line \<and>
     fst (run_instrumented L W prog target line sd an g) = Inr now \<and>
     (\<forall>i f x y. FieldDiff i f x y \<in> set (diffs r) \<longleftrightarrow>
        i < min (length a) (length (m_events now)) \<and>
        x = dict_get (a ! i) f \<and> y = dict_get (m_events now ! i) f \<and> py_ne x y \<and>
        (f = ''kind'' \<or>
         (f \<in> set compared_keys \<and>
          \<not> py_ne (dict_get (a ! i) ''kind'') (dict_get (m_events now ! i) ''kind'')))) \<and>
     (\<forall>x y. LenDiff x y \<in> set (diffs r) \<longleftrightarrow>
        length a \<noteq> length (m_events now) \<and> x = length a \<and> y = length (m_events now)) \<and>
     count_list (diffs r) (LenDiff (length a) (length (m_events now)))
       = (if length a \<noteq> length (m_events now) then 1 else 0) \<and>
     ok r = (diffs r = [])"
proof -
  from assms obtain line where line: "replay_args ref = Inr line"
    by (cases "replay_args ref") (simp_all add: verify_run_def)
  from assms line obtain now where now: "fst (run_instrumented L W prog target line sd an g) = Inr now"
    by (cases "fst (run_instrumented L W prog target line sd an g)") (simp_all add: verify_run_def)
  from assms line now obtain a where a: "ref_events ref = Some a"
    by (cases "ref_events ref") (simp_all add: verify_run_def)
  from assms line now a obtain ds where ds: "compare_events a (m_events now) = Inr ds"
    by (cases "compare_events a (m_events now)") (simp_all add: verify_run_def)
  from assms line now a ds have r: "diffs r = ds" "ok r = (ds = [])"
    by (auto simp: verify_run_def)
  from compare_events_spec[OF ds] r line now a show ?thesis by simp
qed

lemma log_at_prev_hash:
  "prev_hash (log_at L clock kind flds lg) =
     sha256_hex L (prev_hash lg @
        hash_dict L (new_event (clock (length (events lg)) - start_mono lg) kind flds))"
  by (simp add: log_at_def log_event_prev_hash)

lemmas run_eval = log_at_start_mono log_at_prev_hash run_instrumented_def Let_def patch_open_def patch_socket_def
  patch_subprocess_def seed_all_def log_at_events manifest_def EventLogger_init_def
  sample_world_def PopenShim_init_def log_event_events

lemmas cmp_eval = compare_events_def compare_fields_eq compared_keys_def py_ne_def
  map_of_dict_set map_of_new_event dict_get_def

lemma quiet_run_kinds:
  "map (\<lambda>e. map_of e ''kind'')
     (m_events (manifest sample_lib (r_logger (snd
        (run_instrumented sample_lib sample_world quiet_target ''t.py'' None 42 False sample_globals)))))
   = [Some (JStr ''rng_seed''), Some (JStr ''rng_seed_skip''), Some (JStr ''begin''), Some (JStr ''end'')]"
  by (simp add: run_eval quiet_target_def map_of_dict_set map_of_new_event)

text \<open>
  Claim C6 as stated fails: the first reference event defines \<open>path\<close>, the observed
  \<open>rng_seed\<close> event does not, the kinds are equal, and the field is compared and reported.
\<close>

theorem one_sided_field_counterexample:
  "map_sum id (\<lambda>r. (ok r, diffs r))
     (verify_run sample_lib sample_world quiet_target ''t.py'' ref_extra_path 42 False sample_globals)
   = Inr (False, [FieldDiff 0 ''path'' (JStr ''/x'') JNull])"
  by (simp add: verify_run_def replay_args_def ref_extra_path_def bare_events_def
        run_eval quiet_target_def cmp_eval)

lemma verify_short:
  "map_sum id (\<lambda>r. (ok r, diffs r))
     (verify_run sample_lib sample_world quiet_target ''t.py'' ref_short 42 False sample_globals)
   = Inr (False, [LenDiff 3 4])"
  by (simp add: verify_run_def replay_args_def ref_short_def bare_events_def
        run_eval quiet_target_def cmp_eval)

text \<open>A reference with three events against a run with four.\<close>

theorem verify_run_comparison_witness:
  "\<exists>r. verify_run sample_lib sample_world quiet_target ''t.py'' ref_short 42 False sample_globals = Inr r \<and>
    (\<exists>a line now.
     ref_events ref_short = Some a \<and> replay_args ref_short = Inr line \<and>
     fst (run_instrumented sample_lib sample_world quiet_target ''t.py'' line 42 False sample_globals)
       = Inr now \<and>
     (\<forall>i f x y. FieldDiff i f x y \<in> set (diffs r) \<longleftrightarrow>
        i < min (length a) (length (m_events now)) \<and>
        x = dict_get (a ! i) f \<and> y = dict_get (m_events now ! i) f \<and> py_ne x y \<and>
        (f = ''kind'' \<or>
         (f \<in> set compared_keys \<and>
          \<not> py_ne (dict_get (a ! i) ''kind'') (dict_get (m_events now ! i) ''kind'')))) \<and>
     (\<forall>x y. LenDiff x y \<in> set (diffs r) \<longleftrightarrow>
        length a \<noteq> length (m_events now) \<and> x = length a \<and> y = length (m_events now)) \<and>
     count_list (diffs r) (LenDiff (length a) (length (m_events now)))
       = (if length a \<noteq> length (m_events now) then 1 else 0) \<and>
     ok r = (diffs r = []))"
proof -
  from verify_short obtain r where
    r: "verify_run sample_lib sample_world quiet_target ''t.py'' ref_short 42 False sample_globals = Inr r"
    by (cases "verify_run sample_lib sample_world quiet_target ''t.py'' ref_short 42 False sample_globals")
       simp_all
  from verify_run_comparison [OF r] r show ?thesis by blast
qed

lemma run_empty_line:
  "run_instrumented L W prog target (Some []) sd an g = run_instrumented L W prog target None sd an g"
  by (simp add: run_instrumented_def)

text \<open>
  Claim C9, as amended. When the first event of the reference has no \<open>args\<close> field,
  \<open>verify_run\<close> does not fail on that account: the replayed argument line is empty, the
  target runs with \<open>sys.argv = [target]\<close> as in a run without arguments, and the events are
  compared as usual.
\<close>

theorem verify_without_args_runs_bare:
  assumes "ref_events ref = Some (e # es)" and "map_of e ''args'' = None"
  shows "replay_args ref = Inr (Some []) \<and>
     verify_run L W prog target ref sd an g =
       (case fst (run_instrumented L W prog target None sd an g) of
          Inl err \<Rightarrow> Inl err
        | Inr now \<Rightarrow>
            (case compare_events (e # es) (m_events now) of
               Inl err \<Rightarrow> Inl err
             | Inr ds \<Rightarrow>
                 Inr \<lparr>ok = (ds = []), diffs = ds, reference_root = ref_root_hash ref,
                      now_root = JStr (m_root_hash now)\<rparr>))"
  using assms
  by (simp add: verify_run_def replay_args_def run_empty_line split: sum.splits)

text \<open>The reference \<open>ref_bare\<close>, whose first event is \<open>rng_seed\<close>.\<close>

theorem verify_without_args_runs_bare_witness:
  "ref_events ref_bare = Some ([(''kind'', JStr ''rng_seed'')] # tl bare_events) \<and>
   map_of [(''kind'', JStr ''rng_seed'')] ''args'' = None \<and>
   replay_args ref_bare = Inr (Some []) \<and>
   verify_run sample_lib sample_world spawning_target ''t.py'' ref_bare 42 False sample_globals =
       (case fst (run_instrumented sample_lib sample_world spawning_target ''t.py'' None 42 False
                    sample_globals) of
          Inl err \<Rightarrow> Inl err
        | Inr now \<Rightarrow>
            (case compare_events ([(''kind'', JStr ''rng_seed'')] # tl bare_events) (m_events now) of
               Inl err \<Rightarrow> Inl err
             | Inr ds \<Rightarrow>
                 Inr \<lparr>ok = (ds = []), diffs = ds, reference_root = ref_root_hash ref_bare,
                      now_root = JStr (m_root_hash now)\<rparr>))"
proof -
  have e: "ref_events ref_bare = Some ([(''kind'', JStr ''rng_seed'')] # tl bare_events)"
    by (simp add: ref_bare_def bare_events_def)
  have a: "map_of [(''kind'', JStr ''rng_seed'')] ''args'' = None" by simp
  show ?thesis
    using e a verify_without_args_runs_bare [OF e a, of sample_lib sample_world spawning_target
        "''t.py''" 42 False sample_globals]
    by blast
qed

text \<open>
  Claim C9 as stated fails: the first event of \<open>ref_bare\<close> has no \<open>args\<close>; \<open>verify_run\<close>
  returns a result, and the result is \<open>ok\<close>, the target having run with no argument.
\<close>

theorem missing_args_counterexample:
  "map_sum id ok
     (verify_run sample_lib sample_world spawning_target ''t.py'' ref_bare 42 False sample_globals)
   = Inr True"
  by (simp add: verify_run_def replay_args_def ref_bare_def bare_events_def
        run_eval spawning_target_def cmp_eval)

lemma compare_fields_cong:
  assumes "list_all (\<lambda>k. dict_get e1 k = dict_get e2 k) compared_keys"
  shows "compare_fields i e1 eb acc = compare_fields i e2 eb acc"
proof -
  have k: "\<And>k. k \<in> set compared_keys \<Longrightarrow> dict_get e1 k = dict_get e2 k"
    using assms by (simp add: list_all_iff)
  have f: "filter (\<lambda>k. py_ne (dict_get e1 k) (dict_get eb k)) compared_keys
         = filter (\<lambda>k. py_ne (dict_get e2 k) (dict_get eb k)) compared_keys"
    by (rule filter_cong) (simp_all add: k)
  have "map (\<lambda>k. FieldDiff i k (dict_get e1 k) (dict_get eb k))
          (filter (\<lambda>k. py_ne (dict_get e2 k) (dict_get eb k)) compared_keys)
      = map (\<lambda>k. FieldDiff i k (dict_get e2 k) (dict_get eb k))
          (filter (\<lambda>k. py_ne (dict_get e2 k) (dict_get eb k)) compared_keys)"
    by (rule map_cong) (simp_all add: k)
  with f show ?thesis by (simp add: compare_fields_eq)
qed

lemma compare_loop_cong:
  assumes "list_all2 (\<lambda>e1 e2. map_of e1 ''kind'' = map_of e2 ''kind'' \<and>
              list_all (\<lambda>k. dict_get e1 k = dict_get e2 k) compared_keys) a1 a2"
  shows "compare_loop i a1 b acc = compare_loop i a2 b acc"
  using assms
proof (induction a1 a2 arbitrary: i b acc rule: list_all2_induct)
  case Nil
  then show ?case by simp
next
  case (Cons e1 a1 e2 a2)
  show ?case
  proof (cases b)
    case Nil
    then show ?thesis by simp
  next
    case (Cons eb b')
    from Cons.hyps(1) have k: "map_of e1 ''kind'' = map_of e2 ''kind''"
      and f: "compare_fields i e1 eb acc = compare_fields i e2 eb acc"
      using compare_fields_cong[of e1 e2 i eb acc] by simp_all
    show ?thesis
      using Cons.IH by (simp add: Cons k f split: option.splits)
  qed
qed

lemma compare_events_cong:
  assumes "list_all2 (\<lambda>e1 e2. map_of e1 ''kind'' = map_of e2 ''kind'' \<and>
              list_all (\<lambda>k. dict_get e1 k = dict_get e2 k) compared_keys) a1 a2"
  shows "compare_events a1 b = compare_events a2 b"
proof -
  have l: "length a1 = length a2" using list_all2_lengthD[OF assms] .
  have c: "compare_loop 0 a1 b [] = compare_loop 0 a2 b []" using compare_loop_cong[OF assms] .
  show ?thesis by (simp only: compare_events_def l c)
qed

lemma replay_args_cong:
  assumes "ref_events r1 = Some a1" and "ref_events r2 = Some a2"
    and "length a1 = length a2"
    and "map_of (hd a1) ''args'' = map_of (hd a2) ''args''"
  shows "replay_args r1 = replay_args r2"
proof (cases a1)
  case Nil
  with assms show ?thesis by (simp add: replay_args_def)
next
  case (Cons e1 es1)
  with assms(3) obtain e2 es2 where "a2 = e2 # es2" by (cases a2) simp_all
  with Cons assms show ?thesis by (simp add: replay_args_def)
qed

text \<open>
  Claim C10, as amended. Two references whose event lists have the same length and agree,
  index by index, on \<open>kind\<close> and on \<open>path\<close>, \<open>sha256\<close>, \<open>bytes\<close>, \<open>cmd\<close>, \<open>host\<close>, \<open>port\<close>, and
  whose first events agree on \<open>args\<close>, give the same \<open>ok\<close> and the same divergences (or the
  same exception), whatever their chain hashes and root hashes are.
\<close>

theorem verify_ignores_chain_and_root:
  assumes "ref_events r1 = Some a1" and "ref_events r2 = Some a2"
    and "list_all2 (\<lambda>e1 e2. map_of e1 ''kind'' = map_of e2 ''kind'' \<and>
              list_all (\<lambda>k. dict_get e1 k = dict_get e2 k) compared_keys) a1 a2"
    and "map_of (hd a1) ''args'' = map_of (hd a2) ''args''"
  shows "map_sum id (\<lambda>r. (ok r, diffs r)) (verify_run L W prog target r1 sd an g)
       = map_sum id (\<lambda>r. (ok r, diffs r)) (verify_run L W prog target r2 sd an g)"
proof -
  have ra: "replay_args r1 = replay_args r2"
    using replay_args_cong[OF assms(1) assms(2) list_all2_lengthD[OF assms(3)] assms(4)] .
  have ce: "\<And>b. compare_events a1 b = compare_events a2 b"
    using compare_events_cong[OF assms(3)] .
  show ?thesis
    using assms(1) assms(2)
    by (simp add: verify_run_def ra ce split: sum.splits)
qed

text \<open>\<open>ref_bare\<close> and \<open>ref_rechained\<close> differ in every chain hash and in the root hash.\<close>

theorem verify_ignores_chain_and_root_witness:
  "ref_events ref_bare = Some bare_events \<and>
   ref_events ref_rechained = Some (map (dict_set ''chain'' (JStr ''00'')) bare_events) \<and>
   list_all2 (\<lambda>e1 e2. map_of e1 ''kind'' = map_of e2 ''kind'' \<and>
              list_all (\<lambda>k. dict_get e1 k = dict_get e2 k) compared_keys)
     bare_events (map (dict_set ''chain'' (JStr ''00'')) bare_events) \<and>
   map_of (hd bare_events) ''args''
     = map_of (hd (map (dict_set ''chain'' (JStr ''00'')) bare_events)) ''args'' \<and>
   ref_root_hash ref_bare \<noteq> ref_root_hash ref_rechained \<and>
   map_sum id (\<lambda>r. (ok r, diffs r))
     (verify_run sample_lib sample_world quiet_target ''t.py'' ref_bare 42 False sample_globals)
   = map_sum id (\<lambda>r. (ok r, diffs r))
     (verify_run sample_lib sample_world quiet_target ''t.py'' ref_rechained 42 False sample_globals)"
proof -
  have 1: "ref_events ref_bare = Some bare_events" by (simp add: ref_bare_def)
  have 2: "ref_events ref_rechained = Some (map (dict_set ''chain'' (JStr ''00'')) bare_events)"
    by (simp add: ref_rechained_def)
  have 3: "list_all2 (\<lambda>e1 e2. map_of e1 ''kind'' = map_of e2 ''kind'' \<and>
              list_all (\<lambda>k. dict_get e1 k = dict_get e2 k) compared_keys)
     bare_events (map (dict_set ''chain'' (JStr ''00'')) bare_events)"
    by (simp add: bare_events_def compared_keys_def dict_get_def map_of_dict_set)
  have 4: "map_of (hd bare_events) ''args''
     = map_of (hd (map (dict_set ''chain'' (JStr ''00'')) bare_events)) ''args''"
    by (simp add: bare_events_def map_of_dict_set)
  have 5: "ref_root_hash ref_bare \<noteq> ref_root_hash ref_rechained"
    by (simp add: ref_bare_def ref_rechained_def)
  show ?thesis
    using 1 2 3 4 5 verify_ignores_chain_and_root [OF 1 2 3 4, of sample_lib sample_world
        quiet_target "''t.py''" 42 False sample_globals]
    by blast
qed

text \<open>
  Claim C10 as stated fails: \<open>ref_with_args\<close> and \<open>ref_bare\<close> have the same length and agree
  on \<open>kind\<close> and on the six fields at every index, and differ in the \<open>args\<close> of the first
  event; the target is started with other arguments and the divergences differ.
\<close>

theorem replayed_args_counterexample:
  "map_sum id (\<lambda>r. (ok r, diffs r))
     (verify_run sample_lib sample_world spawning_target ''t.py'' ref_with_args 42 False sample_globals)
   = Inr (False, [FieldDiff 3 ''kind'' (JStr ''end'') (JStr ''subprocess_spawn''), LenDiff 4 5]) \<and>
   map_sum id (\<lambda>r. (ok r, diffs r))
     (verify_run sample_lib sample_world spawning_target ''t.py'' ref_bare 42 False sample_globals)
   = Inr (True, [])"
  by (simp add: verify_run_def replay_args_def ref_bare_def ref_with_args_def bare_events_def
        run_eval spawning_target_def cmp_eval split_def is_space_def)

end
